theory Spec2Isabelle
  imports Complex_Main "HOL-Library.Word"
begin

unbundle bit_operations_syntax

section \<open>Data model of beep-main.c\<close>

text \<open>
  The enumerations and the parameter block of the source. \<open>unsigned int\<close> is a 32-bit
  word. The field \<open>length\<close> of \<open>beep_parms_T\<close> is called \<open>length_ms\<close> here, since
  \<open>length\<close> is the list function of HOL. The \<open>next\<close> pointer is not a field: a chain of
  parameter blocks is a list, in the order of the \<open>next\<close> pointers.
\<close>

datatype end_delay_E = END_DELAY_NO | END_DELAY_YES

datatype stdin_beep_E = STDIN_BEEP_NONE | STDIN_BEEP_LINE | STDIN_BEEP_CHAR

record beep_parms_T =
  freq :: "32 word"
  length_ms :: "32 word"
  reps :: "32 word"
  delay :: "32 word"
  end_delay :: end_delay_E
  stdin_beep :: stdin_beep_E

definition DEFAULT_FREQ :: "32 word" where
  "DEFAULT_FREQ = 440"

definition DEFAULT_LENGTH :: "32 word" where
  "DEFAULT_LENGTH = 200"

definition DEFAULT_REPS :: "32 word" where
  "DEFAULT_REPS = 1"

definition DEFAULT_DELAY :: "32 word" where
  "DEFAULT_DELAY = 100"

definition DEFAULT_END_DELAY :: end_delay_E where
  "DEFAULT_END_DELAY = END_DELAY_NO"

definition DEFAULT_STDIN_BEEP :: stdin_beep_E where
  "DEFAULT_STDIN_BEEP = STDIN_BEEP_NONE"

definition EXIT_SUCCESS :: int where
  "EXIT_SUCCESS = 0"

definition EXIT_FAILURE :: int where
  "EXIT_FAILURE = 1"

definition EINTR :: int where
  "EINTR = 4"

section \<open>Observable actions\<close>

text \<open>
  Every call the program makes into the C library, the logging module or the driver
  module is recorded as one event, in program order. The driver handle is a type
  parameter: \<open>beep_driver\<close> is declared in a header that the program only uses through
  pointers.
\<close>

datatype signum = SIGINT | SIGTERM

datatype sighandler = SIG_DFL | handle_signal

datatype 'd logarg = AU "32 word" | AE end_delay_E | AS string | AD 'd

datatype 'd event =
    Log_init
  | Log_error string "'d logarg list"
  | Log_warning string
  | Log_verbose string "'d logarg list"
  | Perror string
  | Fputs_stdout string
  | Fputc_stdout char
  | Putchar char
  | Fflush_stdout
  | Setvbuf_stdin_IONBF
  | Setvbuf_stdout_IONBF
  | Fgets "string option"
  | Free beep_parms_T
  | Register string
  | Detect "string option"
  | Begin_tone 'd "32 word"
  | End_tone 'd
  | Fini 'd
  | Signal signum sighandler
  | Nanosleep int int
  | Exit int

text \<open>
  The mutable state of the process: the events so far, the number of \<open>nanosleep\<close> calls
  made, the unread rest of standard input, and the two globals \<open>log_level\<close> and
  \<open>param_device_name\<close>.
\<close>

record 'd world =
  trace :: "'d event list"
  nsleeps :: nat
  stdin_rest :: string
  log_level :: int
  param_device_name :: "string option"

text \<open>
  A finite value of type \<open>float\<close> (IEEE 754 binary32) is a multiple of \<open>2 ^ - 149\<close>,
  and is written as that multiple: \<open>m\<close> stands for \<open>m * 2 ^ - 149\<close>.
\<close>

type_synonym float32 = int

text \<open>
  What the program reads from its surroundings. \<open>nanosleep_result k\<close> is the pair of
  return code and \<open>errno\<close> of the \<open>k\<close>-th call of \<open>nanosleep\<close> (counted from 0).
  \<open>getopt_long_seq\<close> stands for the C library's \<open>getopt_long\<close>: for an argument vector
  it gives the option characters with their \<open>optarg\<close>, in the order the successive
  calls return them, and the final \<open>optind\<close>. \<open>sscanf_u\<close> and \<open>sscanf_f\<close> stand for
  \<open>sscanf\<close> with \<open>%u\<close> and \<open>%f\<close>: \<open>None\<close> when the call does not return 1.
  \<open>beep_drivers_detect\<close> is the detection of the driver module.
\<close>

record 'd env =
  nanosleep_result :: "nat \<Rightarrow> int \<times> int"
  getuid :: nat
  geteuid :: nat
  getgid :: nat
  getegid :: nat
  getenv :: "string \<Rightarrow> string option"
  malloc_ok :: bool
  isatty_stdout :: bool
  beep_drivers_detect :: "string option \<Rightarrow> 'd option"
  strerror_errno :: string
  beep_usage :: string
  PACKAGE_TARNAME :: string
  PACKAGE_VERSION :: string
  getopt_long_seq :: "string list \<Rightarrow> (char \<times> string) list \<times> nat"
  sscanf_u :: "string \<Rightarrow> 32 word option"
  sscanf_f :: "string \<Rightarrow> float32 option"

definition emit :: "'d event \<Rightarrow> 'd world \<Rightarrow> 'd world" where
  "emit e s = s\<lparr>trace := trace s @ [e]\<rparr>"

text \<open>\<open>exit(code)\<close>: the call is recorded and the result is \<open>Inl code\<close>; nothing runs after it.\<close>

definition exit_with :: "int \<Rightarrow> 'd world \<Rightarrow> (int + 'a) \<times> 'd world" where
  "exit_with code s = (Inl code, emit (Exit code) s)"

section \<open>sleep_ms and play_beep\<close>

text \<open>
  \<open>sleep_ms\<close>, lines 289 to 308. The nanoseconds are at most 999000000, so the
  multiplication does not wrap in \<open>unsigned long\<close> of either width and is written on
  integers.
\<close>

definition sleep_ms ::
  "'d env \<Rightarrow> 'd \<Rightarrow> 32 word \<Rightarrow> 'd world \<Rightarrow> (int + int) \<times> 'd world" where
  "sleep_ms env driver milliseconds s =
     (let seconds = uint (milliseconds div 1000);
          nanoseconds = (uint milliseconds mod 1000) * 1000 * 1000;
          s1 = emit (Signal SIGINT handle_signal) s;
          s2 = emit (Signal SIGTERM handle_signal) s1;
          res = nanosleep_result env (nsleeps s2);
          retcode = fst res;
          errno = snd res;
          s3 = (emit (Nanosleep seconds nanoseconds) s2)\<lparr>nsleeps := Suc (nsleeps s2)\<rparr>
      in if retcode = - 1 \<and> errno = EINTR then
           exit_with EXIT_FAILURE (emit (Fini driver) (emit (End_tone driver) s3))
         else
           (Inr retcode, emit (Signal SIGTERM SIG_DFL) (emit (Signal SIGINT SIG_DFL) s3)))"

text \<open>
  The \<open>for\<close> loop of \<open>play_beep\<close>, lines 320 to 327, with the counter \<open>i\<close> as argument.
\<close>

function play_beep_loop ::
  "'d env \<Rightarrow> 'd \<Rightarrow> beep_parms_T \<Rightarrow> 32 word \<Rightarrow> 'd world \<Rightarrow> (int + unit) \<times> 'd world" where
  "play_beep_loop env driver parms i s =
     (if i < reps parms then
        (case sleep_ms env driver (length_ms parms)
                (emit (Begin_tone driver (freq parms AND 0xffff)) s) of
           (Inl c, s2) \<Rightarrow> (Inl c, s2)
         | (Inr r, s2) \<Rightarrow>
             (let s3 = emit (End_tone driver) s2 in
              if end_delay parms = END_DELAY_YES \<or> i + 1 < reps parms then
                (case sleep_ms env driver (delay parms) s3 of
                   (Inl c, s4) \<Rightarrow> (Inl c, s4)
                 | (Inr r', s4) \<Rightarrow> play_beep_loop env driver parms (i + 1) s4)
              else play_beep_loop env driver parms (i + 1) s3))
      else (Inr (), s))"
  by pat_completeness auto

lemma unat_succ_below: "(i :: 32 word) < r \<Longrightarrow> unat (i + 1) = Suc (unat i)"
  by unat_arith

termination play_beep_loop
  by (relation "measure (\<lambda>(env, driver, parms, i, s). unat (reps parms) - unat i)")
     (auto simp: unat_succ_below word_less_nat_alt)

declare play_beep_loop.simps [simp del]

text \<open>\<open>play_beep\<close>, lines 311 to 328: the log call, then the loop from 0.\<close>

definition play_beep ::
  "'d env \<Rightarrow> 'd \<Rightarrow> beep_parms_T \<Rightarrow> 'd world \<Rightarrow> (int + unit) \<times> 'd world" where
  "play_beep env driver parms s =
     play_beep_loop env driver parms 0
       (emit (Log_verbose ''%d times %d ms beeps (%d ms delay between, %d ms delay after) @ %d Hz''
                [AU (reps parms), AU (length_ms parms), AU (delay parms),
                 AE (end_delay parms), AU (freq parms)]) s)"

section \<open>Standard input\<close>

definition NUL :: char where
  "NUL = CHR 0x00"

definition newline :: char where
  "newline = CHR 0x0A"

definition BEL :: char where
  "BEL = CHR 0x07"

text \<open>
  \<open>fgets(sin, bufsize, stdin)\<close> of the C library, on the unread input: \<open>None\<close> at the end
  of the input (the call returns \<open>NULL\<close>), otherwise the buffer and the input left. The
  call reads at most \<open>bufsize - 1\<close> characters and stops after a newline; the buffer is
  what was read, followed by a terminating \<open>NUL\<close>. A read error, on which \<open>fgets\<close> also
  returns \<open>NULL\<close>, ends the loop like the end of the input and is not told apart. The
  buffer \<open>sin\<close> of the source is called \<open>buf\<close> below, since \<open>sin\<close> is the sine in HOL.
\<close>

definition fgets :: "nat \<Rightarrow> string \<Rightarrow> (string \<times> string) option" where
  "fgets bufsize input =
     (if input = [] then None
      else (let n = min (bufsize - 1) (Suc (length (takeWhile (\<lambda>c. c \<noteq> newline) input)))
            in Some (take n input @ [NUL], drop n input)))"

text \<open>A buffer read as a C string: the characters before the first \<open>NUL\<close>.\<close>

definition c_string :: "string \<Rightarrow> string" where
  "c_string buf = takeWhile (\<lambda>c. c \<noteq> NUL) buf"

text \<open>
  The loop of lines 445 to 449 over the buffer: \<open>ptr\<close> runs until it points at a \<open>NUL\<close>.
\<close>

fun char_loop ::
  "'d env \<Rightarrow> 'd \<Rightarrow> beep_parms_T \<Rightarrow> string \<Rightarrow> 'd world \<Rightarrow> (int + unit) \<times> 'd world" where
  "char_loop env driver parms [] s = (Inr (), s)"
| "char_loop env driver parms (c # cs) s =
     (if c = NUL then (Inr (), s)
      else (case play_beep env driver parms (emit Fflush_stdout (emit (Putchar c) s)) of
              (Inl code, s') \<Rightarrow> (Inl code, s')
            | (Inr u, s') \<Rightarrow> char_loop env driver parms cs s'))"

text \<open>What one buffer triggers, lines 444 to 453.\<close>

definition stdin_chunk ::
  "'d env \<Rightarrow> 'd \<Rightarrow> beep_parms_T \<Rightarrow> string \<Rightarrow> 'd world \<Rightarrow> (int + unit) \<times> 'd world" where
  "stdin_chunk env driver parms buf s =
     (if stdin_beep parms = STDIN_BEEP_CHAR then char_loop env driver parms buf s
      else play_beep env driver parms (emit (Fputs_stdout (c_string buf)) s))"

text \<open>
  None of the playback functions reads standard input; the loop over the input needs
  this for its termination.
\<close>

lemma sleep_ms_stdin_rest: "stdin_rest (snd (sleep_ms env driver ms s)) = stdin_rest s"
  by (simp add: sleep_ms_def Let_def exit_with_def emit_def)

lemma play_beep_loop_stdin_rest:
  "stdin_rest (snd (play_beep_loop env driver parms i s)) = stdin_rest s"
proof (induction env driver parms i s rule: play_beep_loop.induct)
  case (1 env driver parms i s)
  let ?s1 = "emit (Begin_tone driver (freq parms AND 0xffff)) s"
  have a: "stdin_rest (snd (sleep_ms env driver (length_ms parms) ?s1)) = stdin_rest s"
    by (simp add: sleep_ms_stdin_rest) (simp add: emit_def)
  have b: "stdin_rest (snd (sleep_ms env driver (delay parms) (emit (End_tone driver) s2)))
             = stdin_rest s2" for s2
    by (simp add: sleep_ms_stdin_rest) (simp add: emit_def)
  show ?case
  proof (cases "i < reps parms")
    case False
    then show ?thesis by (simp add: play_beep_loop.simps [of env driver parms i s])
  next
    case True
    show ?thesis
    proof (cases "sleep_ms env driver (length_ms parms) ?s1")
      case (Pair r1 s2)
      note p1 = Pair
      show ?thesis
      proof (cases r1)
        case (Inl c)
        with True p1 a show ?thesis
          by (simp add: play_beep_loop.simps [of env driver parms i s])
      next
        case (Inr r)
        note r1 = Inr
        have s2: "stdin_rest s2 = stdin_rest s" using a p1 by simp
        show ?thesis
        proof (cases "end_delay parms = END_DELAY_YES \<or> i + 1 < reps parms")
          case False
          have "stdin_rest (snd (play_beep_loop env driver parms (i + 1) (emit (End_tone driver) s2)))
                  = stdin_rest (emit (End_tone driver) s2)"
            using "1.IH"(2) [OF True p1 [symmetric] r1 refl False] .
          with True p1 r1 False s2 show ?thesis
            by (simp add: play_beep_loop.simps [of env driver parms i s] emit_def)
        next
          case yes: True
          show ?thesis
          proof (cases "sleep_ms env driver (delay parms) (emit (End_tone driver) s2)")
            case (Pair r2 s4)
            note p2 = Pair
            have s4: "stdin_rest s4 = stdin_rest s" using b [of s2] p2 s2 by simp
            show ?thesis
            proof (cases r2)
              case (Inl c)
              with True p1 r1 yes p2 s4 show ?thesis
                by (simp add: play_beep_loop.simps [of env driver parms i s])
            next
              case (Inr r')
              have "stdin_rest (snd (play_beep_loop env driver parms (i + 1) s4)) = stdin_rest s4"
                using "1.IH"(1) [OF True p1 [symmetric] r1 refl yes p2 [symmetric] Inr] .
              with True p1 r1 yes p2 Inr s4 show ?thesis
                by (simp add: play_beep_loop.simps [of env driver parms i s])
            qed
          qed
        qed
      qed
    qed
  qed
qed

lemma play_beep_stdin_rest: "stdin_rest (snd (play_beep env driver parms s)) = stdin_rest s"
  by (simp add: play_beep_def play_beep_loop_stdin_rest) (simp add: emit_def)

lemma char_loop_stdin_rest: "stdin_rest (snd (char_loop env driver parms cs s)) = stdin_rest s"
proof (induction cs arbitrary: s)
  case Nil
  show ?case by simp
next
  case (Cons c cs)
  let ?s1 = "emit Fflush_stdout (emit (Putchar c) s)"
  have a: "stdin_rest (snd (play_beep env driver parms ?s1)) = stdin_rest s"
    by (simp add: play_beep_stdin_rest) (simp add: emit_def)
  show ?case
  proof (cases "play_beep env driver parms ?s1")
    case (Pair r s')
    with a Cons.IH [of s'] show ?thesis by (cases r) auto
  qed
qed

lemma stdin_chunk_stdin_rest:
  "stdin_rest (snd (stdin_chunk env driver parms buf s)) = stdin_rest s"
  by (simp add: stdin_chunk_def char_loop_stdin_rest play_beep_stdin_rest) (simp add: emit_def)

lemma fgets_shorter: "fgets 4096 input = Some (buf, rest) \<Longrightarrow> length rest < length input"
  by (auto simp: fgets_def Let_def split: if_splits)

text \<open>
  The loop of lines 443 to 454: one buffer per call of \<open>fgets\<close>, until it returns
  \<open>NULL\<close>.
\<close>

function stdin_loop ::
  "'d env \<Rightarrow> 'd \<Rightarrow> beep_parms_T \<Rightarrow> 'd world \<Rightarrow> (int + unit) \<times> 'd world" where
  "stdin_loop env driver parms s =
     (case fgets 4096 (stdin_rest s) of
        None \<Rightarrow> (Inr (), emit (Fgets None) s)
      | Some (buf, rest) \<Rightarrow>
          (case stdin_chunk env driver parms buf
                  ((emit (Fgets (Some buf)) s)\<lparr>stdin_rest := rest\<rparr>) of
             (Inl code, s') \<Rightarrow> (Inl code, s')
           | (Inr u, s') \<Rightarrow> stdin_loop env driver parms s'))"
  by pat_completeness auto

termination stdin_loop
proof (relation "measure (\<lambda>(env, driver, parms, s). length (stdin_rest s))")
  show "wf (measure (\<lambda>(env, driver, parms, s). length (stdin_rest s)))"
    by simp
next
  fix env :: "'d env" and driver :: 'd and parms s x2 buf rest x y s'
  assume f: "fgets 4096 (stdin_rest s) = Some x2" and x2: "(buf, rest) = x2"
    and c: "(x, s') = stdin_chunk env driver parms buf
                        ((emit (Fgets (Some buf)) s)\<lparr>stdin_rest := rest\<rparr>)"
  have "stdin_rest s' = rest"
    using stdin_chunk_stdin_rest
            [of env driver parms buf "(emit (Fgets (Some buf)) s)\<lparr>stdin_rest := rest\<rparr>"]
          c [symmetric]
    by simp
  moreover have "length rest < length (stdin_rest s)"
    using fgets_shorter f x2 by metis
  ultimately show "((env, driver, parms, s'), (env, driver, parms, s))
                     \<in> measure (\<lambda>(env, driver, parms, s). length (stdin_rest s))"
    by simp
qed

declare stdin_loop.simps [simp del]

text \<open>
  The outermost loop of \<open>main\<close>, lines 426 to 462, over the chain of parameter blocks.
\<close>

fun play_chain ::
  "'d env \<Rightarrow> 'd \<Rightarrow> beep_parms_T list \<Rightarrow> 'd world \<Rightarrow> (int + unit) \<times> 'd world" where
  "play_chain env driver [] s = (Inr (), s)"
| "play_chain env driver (parms # next) s =
     (case (if stdin_beep parms \<noteq> STDIN_BEEP_NONE
            then stdin_loop env driver parms
                   (emit Setvbuf_stdout_IONBF (emit Setvbuf_stdin_IONBF s))
            else play_beep env driver parms s) of
        (Inl code, s') \<Rightarrow> (Inl code, s')
      | (Inr u, s') \<Rightarrow> play_chain env driver next (emit (Free parms) s'))"

section \<open>Command line\<close>

text \<open>
  Arithmetic of \<open>float\<close> on the scaled values, as far as line 187 needs it: the number
  of binary digits, rounding of an exact non-negative value to 24 significant digits
  (to nearest, ties to even: the default rounding of IEEE 754), addition of
  non-negative values, and the conversion to \<open>int\<close>, which truncates. The sum is
  rounded to \<open>float\<close> before the conversion, as an implementation that evaluates \<open>float\<close>
  expressions in \<open>float\<close> does. Only finite values are modelled: an infinity fails one of
  the comparisons of line 184, and a NaN passes both, after which its conversion to \<open>int\<close>
  has no defined result in C.
\<close>

function bitlen :: "int \<Rightarrow> nat" where
  "bitlen x = (if x \<le> 0 then 0 else Suc (bitlen (x div 2)))"
  by pat_completeness auto

termination bitlen
  by (relation "measure nat") auto

declare bitlen.simps [simp del]

definition f32_round :: "int \<Rightarrow> float32" where
  "f32_round x =
     (let sh = bitlen x - 24;
          q = x div 2 ^ sh;
          r = x mod 2 ^ sh
      in if 2 ^ sh < 2 * r \<or> (2 * r = 2 ^ sh \<and> odd q) then (q + 1) * 2 ^ sh
         else q * 2 ^ sh)"

definition f32_add :: "float32 \<Rightarrow> float32 \<Rightarrow> float32" where
  "f32_add a b = f32_round (a + b)"

definition f32_of_nat :: "nat \<Rightarrow> float32" where
  "f32_of_nat n = int n * 2 ^ 149"

definition f32_half :: float32 where
  "f32_half = 2 ^ 148"

definition f32_to_int :: "float32 \<Rightarrow> int" where
  "f32_to_int a = a div 2 ^ 149"


definition version_message :: "'d env \<Rightarrow> string" where
  "version_message env =
     PACKAGE_TARNAME env @ '' '' @ PACKAGE_VERSION env @ [newline] @
     ''Copyright (C) 2002-2016 Johnathan Nightingale'' @ [newline] @
     ''Copyright (C) 2013-2018 Hans Ulrich Niedermann'' @ [newline] @
     ''Use and Distribution subject to GPL.'' @ [newline] @
     ''For information: http://www.gnu.org/copyleft/.'' @ [newline]"

definition print_usage :: "'d env \<Rightarrow> 'd world \<Rightarrow> 'd world" where
  "print_usage env s = emit (Fputs_stdout (beep_usage env)) s"

definition usage_bail :: "'d env \<Rightarrow> 'd world \<Rightarrow> (int + 'a) \<times> 'd world" where
  "usage_bail env s = exit_with EXIT_FAILURE (print_usage env s)"

definition default_parms :: beep_parms_T where
  "default_parms =
     \<lparr>freq = 0, length_ms = DEFAULT_LENGTH, reps = DEFAULT_REPS, delay = DEFAULT_DELAY,
      end_delay = DEFAULT_END_DELAY, stdin_beep = DEFAULT_STDIN_BEEP\<rparr>"

text \<open>
  The three cases that read an unsigned number, lines 194 to 231, share their two
  checks; \<open>store\<close> is the assignment that follows them.
\<close>

definition scan_bounded ::
  "'d env \<Rightarrow> string \<Rightarrow> (32 word \<Rightarrow> 'a) \<Rightarrow> 'd world \<Rightarrow> (int + 'a) \<times> 'd world" where
  "scan_bounded env optarg store s =
     (case sscanf_u env optarg of
        None \<Rightarrow> usage_bail env s
      | Some argval_u \<Rightarrow>
          if argval_u > 300000 then usage_bail env s else (Inr (store argval_u), s))"

text \<open>
  One turn of the \<open>while\<close> loop of \<open>parse_command_line\<close>, lines 172 to 278: the
  \<open>switch\<close> on the option character. The requests parsed so far are the finished ones
  (\<open>finished\<close>, oldest first) and the one \<open>result\<close> points to. The \<open>malloc\<close> of line
  247 is taken to succeed: the source does not check it.
\<close>

definition parse_option ::
  "'d env \<Rightarrow> char \<times> string \<Rightarrow> beep_parms_T list \<times> beep_parms_T \<Rightarrow> 'd world
     \<Rightarrow> (int + beep_parms_T list \<times> beep_parms_T) \<times> 'd world" where
  "parse_option env opt st s =
     (let ch = fst opt; optarg = snd opt; finished = fst st; result = snd st in
      if ch = CHR ''f'' then
        (case sscanf_f env optarg of
           None \<Rightarrow> usage_bail env s
         | Some argval_f \<Rightarrow>
             if 0 > argval_f \<or> argval_f > f32_of_nat 20000 then usage_bail env s
             else (let argval_i = f32_to_int (f32_add argval_f f32_half);
                       argval_u = (word_of_int argval_i :: 32 word);
                       s' = (if freq result \<noteq> 0
                             then emit (Log_warning ''multiple -f values given, only last one is used.'') s
                             else s)
                   in (Inr (finished, result\<lparr>freq := argval_u\<rparr>), s')))
      else if ch = CHR ''l'' then
        scan_bounded env optarg (\<lambda>u. (finished, result\<lparr>length_ms := u\<rparr>)) s
      else if ch = CHR ''r'' then
        scan_bounded env optarg (\<lambda>u. (finished, result\<lparr>reps := u\<rparr>)) s
      else if ch = CHR ''d'' then
        scan_bounded env optarg (\<lambda>u. (finished, result\<lparr>delay := u, end_delay := END_DELAY_NO\<rparr>)) s
      else if ch = CHR ''D'' then
        scan_bounded env optarg (\<lambda>u. (finished, result\<lparr>delay := u, end_delay := END_DELAY_YES\<rparr>)) s
      else if ch = CHR ''s'' then
        (Inr (finished, result\<lparr>stdin_beep := STDIN_BEEP_LINE\<rparr>), s)
      else if ch = CHR ''c'' then
        (Inr (finished, result\<lparr>stdin_beep := STDIN_BEEP_CHAR\<rparr>), s)
      else if ch = CHR ''v'' \<or> ch = CHR ''V'' then
        exit_with EXIT_SUCCESS (emit (Fputs_stdout (version_message env)) s)
      else if ch = CHR ''n'' then
        (Inr (finished @ [if freq result = 0 then result\<lparr>freq := DEFAULT_FREQ\<rparr> else result],
              default_parms), s)
      else if ch = CHR ''X'' then
        (Inr (finished, result),
         if log_level s < 999 then s\<lparr>log_level := log_level s + 1\<rparr> else s)
      else if ch = CHR ''e'' then
        (case param_device_name s of
           Some name \<Rightarrow>
             exit_with EXIT_FAILURE
               (emit (Log_error ''You cannot give the --device parameter more than once.'' []) s)
         | None \<Rightarrow> (Inr (finished, result), s\<lparr>param_device_name := Some optarg\<rparr>))
      else if ch = CHR ''h'' then
        exit_with EXIT_SUCCESS (print_usage env s)
      else usage_bail env s)"

fun parse_options ::
  "'d env \<Rightarrow> (char \<times> string) list \<Rightarrow> beep_parms_T list \<times> beep_parms_T \<Rightarrow> 'd world
     \<Rightarrow> (int + beep_parms_T list \<times> beep_parms_T) \<times> 'd world" where
  "parse_options env [] st s = (Inr st, s)"
| "parse_options env (opt # opts) st s =
     (case parse_option env opt st s of
        (Inl code, s') \<Rightarrow> (Inl code, s')
      | (Inr st', s') \<Rightarrow> parse_options env opts st' s')"

text \<open>
  \<open>parse_command_line\<close>, lines 156 to 286. The result is the chain that starts at the
  block \<open>main\<close> allocated.
\<close>

definition parse_command_line ::
  "'d env \<Rightarrow> string list \<Rightarrow> beep_parms_T \<Rightarrow> 'd world
     \<Rightarrow> (int + beep_parms_T list) \<times> 'd world" where
  "parse_command_line env argv result s =
     (case parse_options env (fst (getopt_long_seq env argv)) ([], result) s of
        (Inl code, s') \<Rightarrow> (Inl code, s')
      | (Inr st, s') \<Rightarrow>
          if snd (getopt_long_seq env argv) < length argv then
            usage_bail env (emit (Log_error ''non-option arguments left on command line'' []) s')
          else
            (Inr (fst st @ [if freq (snd st) = 0 then (snd st)\<lparr>freq := DEFAULT_FREQ\<rparr>
                            else snd st]), s'))"

section \<open>main\<close>

definition fallback_beep :: "'d env \<Rightarrow> 'd world \<Rightarrow> 'd world" where
  "fallback_beep env s = (if isatty_stdout env then emit (Fputc_stdout BEL) s else s)"

text \<open>
  Lines 419 to 467 of \<open>main\<close>: what runs once a driver is open. The result \<open>Inr\<close> is
  the value \<open>main\<close> returns. Of the arguments of the log line only the handle is kept; the
  others are fields of it.
\<close>

definition main_play ::
  "'d env \<Rightarrow> 'd \<Rightarrow> beep_parms_T list \<Rightarrow> 'd world \<Rightarrow> (int + int) \<times> 'd world" where
  "main_play env driver chain s =
     (case play_chain env driver chain
             (emit (Log_verbose ''beep: using driver %p (name=%s, fd=%d, dev=%s)'' [AD driver]) s) of
        (Inl code, s') \<Rightarrow> (Inl code, s')
      | (Inr u, s') \<Rightarrow> (Inr EXIT_SUCCESS, emit (Fini driver) (emit (End_tone driver) s')))"

text \<open>\<open>main\<close>, lines 342 to 468.\<close>

definition main :: "'d env \<Rightarrow> string list \<Rightarrow> 'd world \<Rightarrow> (int + int) \<times> 'd world" where
  "main env argv s0 =
     (let s1 = emit Log_init s0 in
      if getuid env \<noteq> geteuid env \<or> getgid env \<noteq> getegid env then
        exit_with EXIT_FAILURE
          (emit (Log_error ''Set up permissions for the pcspkr evdev device file instead.'' [])
             (emit (Log_error ''Running setuid or setgid, which is not supported for security reasons.'' [])
                s1))
      else if getenv env ''SUDO_COMMAND'' \<noteq> None \<or> getenv env ''SUDO_USER'' \<noteq> None
              \<or> getenv env ''SUDO_UID'' \<noteq> None \<or> getenv env ''SUDO_GID'' \<noteq> None then
        exit_with EXIT_FAILURE
          (emit (Log_error ''Set up permissions for the pcspkr evdev device file instead.'' [])
             (emit (Log_error ''Running under sudo, which is not supported for security reasons.'' [])
                s1))
      else if \<not> malloc_ok env then
        exit_with EXIT_FAILURE (emit (Perror ''malloc'') s1)
      else
        (case parse_command_line env argv default_parms s1 of
           (Inl code, s2) \<Rightarrow> (Inl code, s2)
         | (Inr chain, s2) \<Rightarrow>
             (let s3 = emit (Register ''evdev_driver'') (emit (Register ''console_driver'') s2) in
              case param_device_name s3 of
                Some name \<Rightarrow>
                  (case beep_drivers_detect env (Some name) of
                     None \<Rightarrow>
                       exit_with EXIT_FAILURE
                         (emit (Log_error ''Could not open %s for writing: %s''
                                  [AS name, AS (strerror_errno env)])
                            (emit (Detect (Some name)) s3))
                   | Some driver \<Rightarrow> main_play env driver chain (emit (Detect (Some name)) s3))
              | None \<Rightarrow>
                  (case beep_drivers_detect env None of
                     None \<Rightarrow>
                       exit_with EXIT_FAILURE
                         (fallback_beep env
                            (emit (Log_error ''Could not open any device'' [])
                               (emit (Detect None) s3)))
                   | Some driver \<Rightarrow> main_play env driver chain (emit (Detect None) s3)))))"

text \<open>The state in which the process starts.\<close>

definition initial_world :: "string \<Rightarrow> int \<Rightarrow> 'd world" where
  "initial_world input level =
     \<lparr>trace = [], nsleeps = 0, stdin_rest = input, log_level = level,
      param_device_name = None\<rparr>"

section \<open>Properties of traces\<close>

text \<open>
  The \<open>k\<close>-th call of \<open>nanosleep\<close> is interrupted: the test of line 300.
\<close>

definition interrupted :: "'d env \<Rightarrow> nat \<Rightarrow> bool" where
  "interrupted env k =
     (fst (nanosleep_result env k) = - 1 \<and> snd (nanosleep_result env k) = EINTR)"

text \<open>
  The calls of one \<open>sleep_ms\<close>: the three calls up to \<open>nanosleep\<close> (\<open>sleep_call\<close>), followed
  by the two restoring calls when it returns (\<open>sleep_done\<close>) or by the teardown when it was
  interrupted (\<open>sleep_torn\<close>). \<open>advance es k\<close> appends the calls \<open>es\<close> to the trace and counts
  \<open>k\<close> more sleeps.
\<close>

definition sleep_call :: "32 word \<Rightarrow> 'd event list" where
  "sleep_call ms =
     [Signal SIGINT handle_signal, Signal SIGTERM handle_signal,
      Nanosleep (uint (ms div 1000)) ((uint ms mod 1000) * 1000 * 1000)]"

definition sleep_done :: "32 word \<Rightarrow> 'd event list" where
  "sleep_done ms = sleep_call ms @ [Signal SIGINT SIG_DFL, Signal SIGTERM SIG_DFL]"

definition sleep_torn :: "'d \<Rightarrow> 32 word \<Rightarrow> 'd event list" where
  "sleep_torn driver ms = sleep_call ms @ [End_tone driver, Fini driver, Exit EXIT_FAILURE]"

definition advance :: "'d event list \<Rightarrow> nat \<Rightarrow> 'd world \<Rightarrow> 'd world" where
  "advance es k s = s\<lparr>trace := trace s @ es, nsleeps := nsleeps s + k\<rparr>"

definition nanosleep_of :: "32 word \<Rightarrow> 'd event" where
  "nanosleep_of ms = Nanosleep (uint (ms div 1000)) ((uint ms mod 1000) * 1000 * 1000)"

text \<open>
  Projections of a trace: the tone calls (\<open>is_tone\<close>), and the tone calls with the sleeps
  (\<open>is_phase\<close>). \<open>expected_phases driver parms n\<close> is the sequence that \<open>n\<close> repetitions of
  a request are meant to make: \<open>n\<close> blocks of begin tone, sleep of the tone length, end tone,
  sleep of the delay, without the very last sleep unless the end delay is asked for.
\<close>

fun is_tone :: "'d event \<Rightarrow> bool" where
  "is_tone (Begin_tone d v) = True"
| "is_tone (End_tone d) = True"
| "is_tone e = False"

fun is_phase :: "'d event \<Rightarrow> bool" where
  "is_phase (Begin_tone d v) = True"
| "is_phase (End_tone d) = True"
| "is_phase (Nanosleep a b) = True"
| "is_phase e = False"

definition rep_block :: "'d \<Rightarrow> beep_parms_T \<Rightarrow> 'd event list" where
  "rep_block driver parms =
     [Begin_tone driver (freq parms AND 0xffff), nanosleep_of (length_ms parms),
      End_tone driver, nanosleep_of (delay parms)]"

definition expected_phases :: "'d \<Rightarrow> beep_parms_T \<Rightarrow> nat \<Rightarrow> 'd event list" where
  "expected_phases driver parms n =
     (if end_delay parms = END_DELAY_YES then concat (replicate n (rep_block driver parms))
      else butlast (concat (replicate n (rep_block driver parms))))"

text \<open>
  \<open>uses_handle d e\<close>: if \<open>e\<close> is a call into the driver module, it is made on the handle \<open>d\<close>.
  \<open>uses_freq parms e\<close>: if \<open>e\<close> starts a tone, its frequency is the masked one of \<open>parms\<close>.
  The calls that the playback makes outside \<open>sleep_ms\<close> are those of one request
  (\<open>request_event\<close>) and those of the loop over the chain (\<open>chain_event\<close>).
\<close>

fun uses_handle :: "'d \<Rightarrow> 'd event \<Rightarrow> bool" where
  "uses_handle d (Begin_tone d' v) = (d' = d)"
| "uses_handle d (End_tone d') = (d' = d)"
| "uses_handle d (Fini d') = (d' = d)"
| "uses_handle d e = True"

fun uses_freq :: "beep_parms_T \<Rightarrow> 'd event \<Rightarrow> bool" where
  "uses_freq parms (Begin_tone d v) = (v = freq parms AND 0xffff)"
| "uses_freq parms e = True"

fun request_event :: "'d event \<Rightarrow> bool" where
  "request_event (Begin_tone d v) = True"
| "request_event (End_tone d) = True"
| "request_event (Log_verbose f as) = True"
| "request_event (Putchar c) = True"
| "request_event Fflush_stdout = True"
| "request_event (Fputs_stdout str) = True"
| "request_event (Fgets r) = True"
| "request_event e = False"

fun chain_event :: "'d event \<Rightarrow> bool" where
  "chain_event Setvbuf_stdin_IONBF = True"
| "chain_event Setvbuf_stdout_IONBF = True"
| "chain_event (Free p) = True"
| "chain_event e = False"

definition playback_event :: "'d event \<Rightarrow> bool" where
  "playback_event e = (request_event e \<or> chain_event e)"

text \<open>
  \<open>outcome I Q x\<close>: a result \<open>x\<close> that returned satisfies \<open>I\<close>; one that exited has the
  exit code \<open>EXIT_FAILURE\<close> and satisfies \<open>Q\<close>.
\<close>

definition outcome ::
  "('d world \<Rightarrow> bool) \<Rightarrow> ('d world \<Rightarrow> bool) \<Rightarrow> (int + 'a) \<times> 'd world \<Rightarrow> bool" where
  "outcome I Q x = (case x of (Inl c, s') \<Rightarrow> c = EXIT_FAILURE \<and> Q s' | (Inr a, s') \<Rightarrow> I s')"

text \<open>
  The discipline of the signal handlers, as an automaton over the calls of a trace. The
  phases: \<open>Default\<close>, both signals at \<open>SIG_DFL\<close>; \<open>Armed_int\<close> and \<open>Armed\<close>, after the first
  and the second installation of \<open>handle_signal\<close>; \<open>Slept\<close>, after \<open>nanosleep\<close>;
  \<open>Restored_int\<close>, after the first restoration; \<open>Stop_sent\<close> and \<open>Closed\<close>, in the teardown
  of an interrupted sleep; \<open>Exited\<close>, after \<open>exit\<close>. A call that no equation of \<open>sig_next\<close>
  allows is refused (\<open>None\<close>).
\<close>

datatype sig_phase =
  Default | Armed_int | Armed | Slept | Restored_int | Stop_sent | Closed | Exited

datatype call_kind =
  Install_int | Install_term | Restore_int | Restore_term | Wait | Stop | Close | Leave | Other

fun kind_of :: "'d event \<Rightarrow> call_kind" where
  "kind_of (Signal SIGINT handle_signal) = Install_int"
| "kind_of (Signal SIGTERM handle_signal) = Install_term"
| "kind_of (Signal SIGINT SIG_DFL) = Restore_int"
| "kind_of (Signal SIGTERM SIG_DFL) = Restore_term"
| "kind_of (Nanosleep a b) = Wait"
| "kind_of (End_tone d) = Stop"
| "kind_of (Fini d) = Close"
| "kind_of (Exit c) = Leave"
| "kind_of e = Other"

fun sig_next :: "sig_phase \<Rightarrow> call_kind \<Rightarrow> sig_phase option" where
  "sig_next Default Install_int = Some Armed_int"
| "sig_next Default Stop = Some Default"
| "sig_next Default Close = Some Default"
| "sig_next Default Other = Some Default"
| "sig_next Default Leave = Some Exited"
| "sig_next Armed_int Install_term = Some Armed"
| "sig_next Armed Wait = Some Slept"
| "sig_next Slept Restore_int = Some Restored_int"
| "sig_next Slept Stop = Some Stop_sent"
| "sig_next Restored_int Restore_term = Some Default"
| "sig_next Stop_sent Close = Some Closed"
| "sig_next Closed Leave = Some Exited"
| "sig_next ph k = None"

definition sig_step :: "sig_phase \<Rightarrow> 'd event \<Rightarrow> sig_phase option" where
  "sig_step ph e = sig_next ph (kind_of e)"

fun sig_run :: "sig_phase \<Rightarrow> 'd event list \<Rightarrow> sig_phase option" where
  "sig_run ph [] = Some ph"
| "sig_run ph (e # es) = (case sig_step ph e of None \<Rightarrow> None | Some ph' \<Rightarrow> sig_run ph' es)"

definition sig_ok :: "'d world \<Rightarrow> bool" where
  "sig_ok s = (sig_run Default (trace s) = Some Default)"

definition sig_exited :: "'d world \<Rightarrow> bool" where
  "sig_exited s = (sig_run Default (trace s) = Some Exited)"

text \<open>
  \<open>live\<close>: no sleep so far was interrupted, the handle is not closed and the process has not
  exited. \<open>torn\<close>: the last sleep of the run is its first interrupted one, and the trace ends
  with the teardown of that sleep, with no close and no exit before it.
\<close>

fun is_end :: "'d event \<Rightarrow> bool" where
  "is_end (Fini d) = True"
| "is_end (Exit c) = True"
| "is_end e = False"

definition live :: "'d env \<Rightarrow> 'd world \<Rightarrow> bool" where
  "live env s = ((\<forall>k<nsleeps s. \<not> interrupted env k) \<and> filter is_end (trace s) = [])"

definition torn :: "'d env \<Rightarrow> 'd \<Rightarrow> 'd world \<Rightarrow> bool" where
  "torn env driver s =
     (\<exists>k pre ms. nsleeps s = Suc k \<and> interrupted env k \<and> (\<forall>j<k. \<not> interrupted env j)
        \<and> trace s = pre @ sleep_torn driver ms \<and> filter is_end pre = [])"

text \<open>
  The calls that \<open>main\<close> makes before the playback starts. \<open>startup s s'\<close>: the state \<open>s'\<close>
  comes from \<open>s\<close> by such calls only; \<open>left s c s'\<close>: by such calls and a final \<open>exit(c)\<close>.
\<close>

fun startup_event :: "'d event \<Rightarrow> bool" where
  "startup_event Log_init = True"
| "startup_event (Log_error f as) = True"
| "startup_event (Log_warning f) = True"
| "startup_event (Perror str) = True"
| "startup_event (Fputs_stdout str) = True"
| "startup_event (Fputc_stdout c) = True"
| "startup_event (Register n) = True"
| "startup_event (Detect p) = True"
| "startup_event e = False"

definition startup :: "'d world \<Rightarrow> 'd world \<Rightarrow> bool" where
  "startup s s' =
     (\<exists>es. trace s' = trace s @ es \<and> list_all startup_event es
        \<and> nsleeps s' = nsleeps s \<and> stdin_rest s' = stdin_rest s)"

definition left :: "'d world \<Rightarrow> int \<Rightarrow> 'd world \<Rightarrow> bool" where
  "left s c s' = (\<exists>s1. startup s s1 \<and> s' = emit (Exit c) s1)"

definition started :: "'d world \<Rightarrow> (int + 'a) \<times> 'd world \<Rightarrow> bool" where
  "started s x = (case x of (Inl c, s') \<Rightarrow> left s c s' | (Inr a, s') \<Rightarrow> startup s s')"

text \<open>
  A concrete environment for the examples: an unprivileged user, a terminal on standard
  output, and tables for the few arguments that \<open>sscanf\<close> converts (the argument \<open>440.5\<close>
  is the \<open>float\<close> \<open>881 * 2 ^ - 1\<close>). Its parameters are the results of \<open>nanosleep\<close>, the
  options that \<open>getopt_long\<close> finds, and the result of the detection.
\<close>

definition example_env ::
  "(nat \<Rightarrow> int \<times> int) \<Rightarrow> (char \<times> string) list \<Rightarrow> string option \<Rightarrow> string env" where
  "example_env sleeps opts found =
     \<lparr>nanosleep_result = sleeps, getuid = 1000, geteuid = 1000, getgid = 100, getegid = 100,
      getenv = (\<lambda>name. None), malloc_ok = True, isatty_stdout = True,
      beep_drivers_detect = (\<lambda>path. found), strerror_errno = ''Permission denied'',
      beep_usage = ''Usage: beep [options]'', PACKAGE_TARNAME = ''beep'',
      PACKAGE_VERSION = ''1.4.3'', getopt_long_seq = (\<lambda>argv. (opts, length argv)),
      sscanf_u = map_of [(''0'', 0), (''2'', 2), (''50'', 50), (''300000'', 300000),
                         (''300001'', 300001)],
      sscanf_f = map_of [(''0'', 0), (''440'', f32_of_nat 440), (''440.5'', 881 * 2 ^ 148)]\<rparr>"

text \<open>
  The log lines of \<open>play_beep\<close> (lines 314 to 317) and of \<open>main\<close> (lines 419 to 421); the
  first one marks a call of \<open>play_beep\<close> in a trace.
\<close>

definition play_log :: "beep_parms_T \<Rightarrow> 'd event" where
  "play_log parms =
     Log_verbose ''%d times %d ms beeps (%d ms delay between, %d ms delay after) @ %d Hz''
       [AU (reps parms), AU (length_ms parms), AU (delay parms), AE (end_delay parms),
        AU (freq parms)]"

definition driver_log :: "'d \<Rightarrow> 'd event" where
  "driver_log driver =
     Log_verbose ''beep: using driver %p (name=%s, fd=%d, dev=%s)'' [AD driver]"

text \<open>
  The checks of lines 356 to 379 pass: no setuid or setgid, no sudo, memory for the first
  parameter block.
\<close>

definition passes_checks :: "'d env \<Rightarrow> bool" where
  "passes_checks env =
     (getuid env = geteuid env \<and> getgid env = getegid env
      \<and> getenv env ''SUDO_COMMAND'' = None \<and> getenv env ''SUDO_USER'' = None
      \<and> getenv env ''SUDO_UID'' = None \<and> getenv env ''SUDO_GID'' = None
      \<and> malloc_ok env)"

text \<open>The calls that open the device, close it, or end the process.\<close>

fun is_lifecycle :: "'d event \<Rightarrow> bool" where
  "is_lifecycle (Detect p) = True"
| "is_lifecycle (Fini d) = True"
| "is_lifecycle (Exit c) = True"
| "is_lifecycle e = False"

text \<open>
  The delay sleeps of a sequence of tone calls and sleeps: the sleeps that directly follow an
  end of tone.
\<close>

definition delay_sleep_at :: "'d event \<Rightarrow> 'd event list \<Rightarrow> bool" where
  "delay_sleep_at e es =
     (kind_of e = Stop \<and> (case es of [] \<Rightarrow> False | x # xs \<Rightarrow> kind_of x = Wait))"

fun delay_sleeps :: "'d event list \<Rightarrow> nat" where
  "delay_sleeps [] = 0"
| "delay_sleeps (e # es) = (if delay_sleep_at e es then 1 else 0) + delay_sleeps es"

text \<open>
  \<open>quiet s s'\<close>: between \<open>s\<close> and \<open>s'\<close> nothing was called but \<open>log_warning\<close>, and nothing
  was read or slept.
\<close>

fun is_warning :: "'d event \<Rightarrow> bool" where
  "is_warning (Log_warning f) = True"
| "is_warning e = False"

definition not_warning :: "'d event \<Rightarrow> bool" where
  "not_warning e = (\<not> is_warning e)"

definition quiet :: "'d world \<Rightarrow> 'd world \<Rightarrow> bool" where
  "quiet s s' =
     (filter not_warning (trace s') = filter not_warning (trace s)
      \<and> nsleeps s' = nsleeps s \<and> stdin_rest s' = stdin_rest s)"

text \<open>The state after lines 396 to 417, when the detection has succeeded.\<close>

definition opened :: "'d world \<Rightarrow> 'd world" where
  "opened s2 =
     advance [Register ''console_driver'', Register ''evdev_driver'',
              Detect (param_device_name s2)] 0 s2"


definition lifecycle_is :: "'d event list \<Rightarrow> 'd world \<Rightarrow> bool" where
  "lifecycle_is es s = (filter is_lifecycle (trace s) = es)"

definition anything :: "'d world \<Rightarrow> bool" where
  "anything s = True"

definition handles_are :: "'d \<Rightarrow> 'd world \<Rightarrow> bool" where
  "handles_are d s = list_all (uses_handle d) (trace s)"


text \<open>A request and two tables of \<open>nanosleep\<close> results for the examples.\<close>

definition example_parms :: beep_parms_T where
  "example_parms =
     \<lparr>freq = 440, length_ms = 1200, reps = 2, delay = 100, end_delay = END_DELAY_NO,
      stdin_beep = STDIN_BEEP_NONE\<rparr>"

definition never_interrupted :: "nat \<Rightarrow> int \<times> int" where
  "never_interrupted k = (0, 0)"

definition interrupted_at :: "nat \<Rightarrow> nat \<Rightarrow> int \<times> int" where
  "interrupted_at j k = (if k = j then (- 1, EINTR) else (0, 0))"

text \<open>
  \<open>usage_exit\<close> is what \<open>usage_bail\<close> does to a state. \<open>store_bounded\<close> is the assignment of
  the options \<open>-l\<close>, \<open>-r\<close>, \<open>-d\<close> and \<open>-D\<close>, and \<open>rejected\<close> says that their argument fails
  one of the two checks before it. \<open>refusal\<close> is the first message of lines 356 to 372.
\<close>

definition usage_exit :: "'d env \<Rightarrow> 'd world \<Rightarrow> (int + 'a) \<times> 'd world" where
  "usage_exit env s =
     (Inl EXIT_FAILURE, advance [Fputs_stdout (beep_usage env), Exit EXIT_FAILURE] 0 s)"

definition store_bounded :: "char \<Rightarrow> 32 word \<Rightarrow> beep_parms_T \<Rightarrow> beep_parms_T" where
  "store_bounded ch u result =
     (if ch = CHR ''l'' then result\<lparr>length_ms := u\<rparr>
      else if ch = CHR ''r'' then result\<lparr>reps := u\<rparr>
      else if ch = CHR ''d'' then result\<lparr>delay := u, end_delay := END_DELAY_NO\<rparr>
      else result\<lparr>delay := u, end_delay := END_DELAY_YES\<rparr>)"

definition rejected :: "'d env \<Rightarrow> string \<Rightarrow> bool" where
  "rejected env optarg = (case sscanf_u env optarg of None \<Rightarrow> True | Some u \<Rightarrow> 300000 < u)"

definition refusal :: "'d env \<Rightarrow> string" where
  "refusal env =
     (if getuid env = geteuid env \<and> getgid env = getegid env
      then ''Running under sudo, which is not supported for security reasons.''
      else ''Running setuid or setgid, which is not supported for security reasons.'')"

fun is_fputc :: "'d event \<Rightarrow> bool" where
  "is_fputc (Fputc_stdout c) = True"
| "is_fputc e = False"



text \<open>The calls of the stdin modes that read, echo and play.\<close>

fun is_stdin_call :: "'d event \<Rightarrow> bool" where
  "is_stdin_call (Fgets r) = True"
| "is_stdin_call (Putchar c) = True"
| "is_stdin_call (Fputs_stdout str) = True"
| "is_stdin_call Setvbuf_stdin_IONBF = True"
| "is_stdin_call Setvbuf_stdout_IONBF = True"
| "is_stdin_call (Log_verbose f as) = True"
| "is_stdin_call e = False"


text \<open>
  The dispositions of \<open>SIGINT\<close> and \<open>SIGTERM\<close> along a trace, as a pair: \<open>set_disposition\<close>
  is the effect of one call, \<open>disposition_after h es\<close> the pair after the calls \<open>es\<close>, started
  from \<open>h\<close>. \<open>calls_installed h es\<close> lists the calls of \<open>es\<close> other than \<open>signal\<close> and
  \<open>nanosleep\<close> that are made while \<open>handle_signal\<close> is installed for one of the two
  signals.
\<close>

fun set_disposition :: "sighandler \<times> sighandler \<Rightarrow> 'd event \<Rightarrow> sighandler \<times> sighandler" where
  "set_disposition h (Signal SIGINT x) = (x, snd h)"
| "set_disposition h (Signal SIGTERM x) = (fst h, x)"
| "set_disposition h e = h"

fun disposition_after ::
  "sighandler \<times> sighandler \<Rightarrow> 'd event list \<Rightarrow> sighandler \<times> sighandler" where
  "disposition_after h [] = h"
| "disposition_after h (e # es) = disposition_after (set_disposition h e) es"

fun guarded_call :: "'d event \<Rightarrow> bool" where
  "guarded_call (Signal g x) = False"
| "guarded_call (Nanosleep a b) = False"
| "guarded_call e = True"

fun calls_installed :: "sighandler \<times> sighandler \<Rightarrow> 'd event list \<Rightarrow> 'd event list" where
  "calls_installed h [] = []"
| "calls_installed h (e # es) =
     (if (fst h = handle_signal \<or> snd h = handle_signal) \<and> guarded_call e
      then e # calls_installed (set_disposition h e) es
      else calls_installed (set_disposition h e) es)"

text \<open>
  \<open>calm\<close>: both signals have their default disposition and no call so far was made under
  \<open>handle_signal\<close>. \<open>stopped d\<close>: the calls made under \<open>handle_signal\<close> are those of one
  teardown on the handle \<open>d\<close>.
\<close>

definition calm :: "'d world \<Rightarrow> bool" where
  "calm s = (disposition_after (SIG_DFL, SIG_DFL) (trace s) = (SIG_DFL, SIG_DFL)
             \<and> calls_installed (SIG_DFL, SIG_DFL) (trace s) = [])"

definition stopped :: "'d \<Rightarrow> 'd world \<Rightarrow> bool" where
  "stopped d s =
     (calls_installed (SIG_DFL, SIG_DFL) (trace s) = [End_tone d, Fini d, Exit EXIT_FAILURE])"

definition device_is :: "string option \<Rightarrow> 'd world \<Rightarrow> bool" where
  "device_is n s = (param_device_name s = n)"

text \<open>
  The runs of \<open>main\<close> from the initial state: a run that exits before the playback has
  slept nowhere; a run that reaches the playback uses the handle that the detection returned
  in all its driver calls, and either exits in the teardown of its first interrupted sleep
  or returns with no sleep interrupted.
\<close>




text \<open>
  The request that an option \<open>-f\<close> belongs to is the one under construction when the option
  is read: its position in the chain is the number of options \<open>-n\<close> before it. When no
  later \<open>-f\<close> of the same request (none before the next \<open>-n\<close>) overwrites the value, the
  request keeps it, unless the value is 0.
\<close>




text \<open>
  What the C library does for \<open>sscanf(optarg, "%u", &argval_u)\<close>, for the examples: it skips
  white space, reads an optional sign and then decimal digits, and stops at the first
  character that is no digit. With no digit it converts nothing (\<open>None\<close>); otherwise it
  stores the number read, reduced to an \<open>unsigned int\<close>. (A number of \<open>2 ^ 64\<close> or more is
  first replaced by \<open>2 ^ 64 - 1\<close>, as the GNU C library does where \<open>unsigned long\<close> has 64
  bits.) This is not code of the program; the program only sees the result.
\<close>

definition is_space :: "char \<Rightarrow> bool" where
  "is_space c = ((of_char c :: nat) = 32 \<or> (9 \<le> (of_char c :: nat) \<and> (of_char c :: nat) \<le> 13))"

definition is_digit :: "char \<Rightarrow> bool" where
  "is_digit c = (48 \<le> (of_char c :: nat) \<and> (of_char c :: nat) \<le> 57)"

definition decimal_value :: "string \<Rightarrow> int" where
  "decimal_value ds = foldl (\<lambda>a c. 10 * a + (of_char c - 48)) 0 ds"

definition libc_sscanf_u :: "string \<Rightarrow> 32 word option" where
  "libc_sscanf_u str =
     (let body = dropWhile is_space str;
          minus = (body \<noteq> [] \<and> hd body = CHR ''-'');
          plus = (body \<noteq> [] \<and> hd body = CHR ''+'');
          ds = takeWhile is_digit (if minus \<or> plus then tl body else body);
          v = min (decimal_value ds) (2 ^ 64 - 1)
      in if ds = [] then None
         else Some (if minus then - word_of_int v else word_of_int v))"

section \<open>Lemmas\<close>

lemma sleep_ms_eq:
  "sleep_ms env driver ms s =
     (if interrupted env (nsleeps s)
      then (Inl EXIT_FAILURE, advance (sleep_torn driver ms) 1 s)
      else (Inr (fst (nanosleep_result env (nsleeps s))), advance (sleep_done ms) 1 s))"
  by (simp add: sleep_ms_def Let_def interrupted_def exit_with_def emit_def advance_def
        sleep_torn_def sleep_done_def sleep_call_def)

lemma emit_advance: "emit e s = advance [e] 0 s"
  by (simp add: emit_def advance_def)

lemma advance_advance: "advance es k (advance es' k' s) = advance (es' @ es) (k' + k) s"
  by (simp add: advance_def)

lemma advance_fields:
  "trace (advance es k s) = trace s @ es"
  "nsleeps (advance es k s) = nsleeps s + k"
  "stdin_rest (advance es k s) = stdin_rest s"
  "log_level (advance es k s) = log_level s"
  "param_device_name (advance es k s) = param_device_name s"
  by (simp_all add: advance_def)

lemma play_beep_loop_end: "\<not> i < reps parms \<Longrightarrow> play_beep_loop env driver parms i s = (Inr (), s)"
  by (simp add: play_beep_loop.simps [of env driver parms i s])

lemma play_beep_loop_step:
  "i < reps parms \<Longrightarrow>
   play_beep_loop env driver parms i s =
     (let b = Begin_tone driver (freq parms AND 0xffff) in
      if interrupted env (nsleeps s) then
        (Inl EXIT_FAILURE, advance (b # sleep_torn driver (length_ms parms)) 1 s)
      else if end_delay parms = END_DELAY_YES \<or> i + 1 < reps parms then
        if interrupted env (Suc (nsleeps s)) then
          (Inl EXIT_FAILURE,
           advance (b # sleep_done (length_ms parms) @ End_tone driver # sleep_torn driver (delay parms)) 2 s)
        else
          play_beep_loop env driver parms (i + 1)
            (advance (b # sleep_done (length_ms parms) @ End_tone driver # sleep_done (delay parms)) 2 s)
      else
        play_beep_loop env driver parms (i + 1)
          (advance (b # sleep_done (length_ms parms) @ [End_tone driver]) 1 s))"
  by (simp add: play_beep_loop.simps [of env driver parms i s] Let_def sleep_ms_eq
        emit_advance advance_advance advance_fields numeral_2_eq_2)

lemma filter_phase_sleep [simp]:
  "filter is_phase (sleep_done ms) = [nanosleep_of ms]"
  "filter is_tone (sleep_done ms) = []"
  by (simp_all add: sleep_done_def sleep_call_def nanosleep_of_def)

lemma remaining_Suc:
  "(i :: 32 word) < r \<Longrightarrow> unat r - unat i = Suc (unat r - unat (i + 1))"
  by unat_arith

lemma last_rep: "(i :: 32 word) < r \<Longrightarrow> \<not> i + 1 < r \<Longrightarrow> unat r - unat (i + 1) = 0"
  by unat_arith

lemma more_reps: "(i :: 32 word) < r \<Longrightarrow> i + 1 < r \<Longrightarrow> 0 < unat r - unat (i + 1)"
  by unat_arith

lemma play_beep_loop_tones:
  "play_beep_loop env driver parms i s = (Inr u, s') \<Longrightarrow>
   filter is_tone (trace s') =
     filter is_tone (trace s) @
     concat (replicate (unat (reps parms) - unat i)
               [Begin_tone driver (freq parms AND 0xffff), End_tone driver])"
proof (induction "unat (reps parms) - unat i" arbitrary: i s)
  case 0
  then have "\<not> i < reps parms" by (simp add: word_less_nat_alt)
  with 0 show ?case by (simp add: play_beep_loop_end)
next
  case (Suc m)
  then have lt: "i < reps parms" by (simp add: word_less_nat_alt)
  have m: "m = unat (reps parms) - unat (i + 1)"
    using remaining_Suc [OF lt] Suc.hyps(2) by simp
  show ?case
    using Suc.prems Suc.hyps(1) [OF m] remaining_Suc [OF lt]
    by (auto simp: play_beep_loop_step [OF lt] Let_def advance_fields split: if_splits)
qed

lemma play_beep_loop_phases:
  "play_beep_loop env driver parms i s = (Inr u, s') \<Longrightarrow>
   filter is_phase (trace s') =
     filter is_phase (trace s) @ expected_phases driver parms (unat (reps parms) - unat i)"
proof (induction "unat (reps parms) - unat i" arbitrary: i s)
  case 0
  then have "\<not> i < reps parms" by (simp add: word_less_nat_alt)
  with 0 show ?case by (simp add: play_beep_loop_end expected_phases_def)
next
  case (Suc m)
  then have lt: "i < reps parms" by (simp add: word_less_nat_alt)
  have m: "m = unat (reps parms) - unat (i + 1)"
    using remaining_Suc [OF lt] Suc.hyps(2) by simp
  have blk: "rep_block driver parms \<noteq> []" by (simp add: rep_block_def)
  show ?case
  proof (cases "end_delay parms = END_DELAY_YES")
    case True
    with Suc.prems Suc.hyps(1) [OF m] remaining_Suc [OF lt] show ?thesis
      by (auto simp: play_beep_loop_step [OF lt] Let_def advance_fields expected_phases_def
            rep_block_def split: if_splits)
  next
    case no: False
    show ?thesis
    proof (cases "i + 1 < reps parms")
      case True
      let ?C = "advance (Begin_tone driver (freq parms AND 0xffff) # sleep_done (length_ms parms) @
                  End_tone driver # sleep_done (delay parms)) 2 s"
      have rec: "play_beep_loop env driver parms (i + 1) ?C = (Inr u, s')"
        using Suc.prems True by (simp add: play_beep_loop_step [OF lt] Let_def split: if_splits)
      have ne: "concat (replicate m (rep_block driver parms)) \<noteq> []"
        using more_reps [OF lt True] m blk by (cases m) auto
      have "filter is_phase (trace s') =
              filter is_phase (trace ?C) @ butlast (concat (replicate m (rep_block driver parms)))"
        using Suc.hyps(1) [OF m rec] no by (simp add: expected_phases_def m [symmetric])
      then show ?thesis
        using ne no Suc.hyps(2) [symmetric]
        by (simp add: advance_fields expected_phases_def butlast_append)
           (simp add: rep_block_def)
    next
      case False
      let ?D = "advance (Begin_tone driver (freq parms AND 0xffff) # sleep_done (length_ms parms) @
                  [End_tone driver]) 1 s"
      have rec: "play_beep_loop env driver parms (i + 1) ?D = (Inr u, s')"
        using Suc.prems False no by (simp add: play_beep_loop_step [OF lt] Let_def split: if_splits)
      have m0: "m = 0" using last_rep [OF lt False] m by simp
      have "filter is_phase (trace s') = filter is_phase (trace ?D)"
        using Suc.hyps(1) [OF m rec] no m0 by (simp add: expected_phases_def m [symmetric])
      then show ?thesis
        using no Suc.hyps(2) [symmetric] m0
        by (simp add: advance_fields expected_phases_def rep_block_def)
    qed
  qed
qed

lemma play_beep_loop_returns:
  "\<forall>k. \<not> interrupted env k \<Longrightarrow> fst (play_beep_loop env driver parms i s) = Inr ()"
proof (induction "unat (reps parms) - unat i" arbitrary: i s)
  case 0
  then have "\<not> i < reps parms" by (simp add: word_less_nat_alt)
  then show ?case by (simp add: play_beep_loop_end)
next
  case (Suc m)
  then have lt: "i < reps parms" by (simp add: word_less_nat_alt)
  have m: "m = unat (reps parms) - unat (i + 1)"
    using remaining_Suc [OF lt] Suc.hyps(2) by simp
  show ?case
    using Suc.prems Suc.hyps(1) [OF m]
    by (simp add: play_beep_loop_step [OF lt] Let_def)
qed

lemma outcome_Inl [simp]: "outcome I Q (Inl c, s') = (c = EXIT_FAILURE \<and> Q s')"
  by (simp add: outcome_def)

lemma outcome_Inr [simp]: "outcome I Q (Inr a, s') = I s'"
  by (simp add: outcome_def)

lemma play_beep_loop_outcome_freq:
  assumes ev: "\<And>e s. is_tone e \<Longrightarrow> uses_handle driver e \<Longrightarrow> uses_freq parms e \<Longrightarrow> I s
                 \<Longrightarrow> I (emit e s)"
      and sl: "\<And>ms s. I s \<Longrightarrow> outcome I Q (sleep_ms env driver ms s)"
  shows "I s \<Longrightarrow> outcome I Q (play_beep_loop env driver parms i s)"
proof (induction "unat (reps parms) - unat i" arbitrary: i s)
  case 0
  then have "\<not> i < reps parms" by (simp add: word_less_nat_alt)
  with 0 show ?case by (simp add: play_beep_loop_end)
next
  case (Suc m)
  then have lt: "i < reps parms" by (simp add: word_less_nat_alt)
  have m: "m = unat (reps parms) - unat (i + 1)"
    using remaining_Suc [OF lt] Suc.hyps(2) by simp
  let ?s1 = "emit (Begin_tone driver (freq parms AND 0xffff)) s"
  have I1: "I ?s1" using ev Suc.prems by simp
  show ?case
  proof (cases "sleep_ms env driver (length_ms parms) ?s1")
    case (Pair r1 s2)
    note p1 = Pair
    show ?thesis
    proof (cases r1)
      case (Inl c)
      with sl [OF I1, of "length_ms parms"] p1 lt show ?thesis
        by (simp add: play_beep_loop.simps [of env driver parms i s])
    next
      case (Inr a)
      note r1 = Inr
      have I2: "I s2" using sl [OF I1, of "length_ms parms"] p1 r1 by simp
      let ?s3 = "emit (End_tone driver) s2"
      have I3: "I ?s3" using ev I2 by simp
      show ?thesis
      proof (cases "end_delay parms = END_DELAY_YES \<or> i + 1 < reps parms")
        case False
        with lt p1 r1 Suc.hyps(1) [OF m I3] show ?thesis
          by (simp add: play_beep_loop.simps [of env driver parms i s])
      next
        case True
        show ?thesis
        proof (cases "sleep_ms env driver (delay parms) ?s3")
          case (Pair r2 s4)
          note p2 = Pair
          show ?thesis
          proof (cases r2)
            case (Inl c)
            with sl [OF I3, of "delay parms"] p2 True lt p1 r1 show ?thesis
              by (simp add: play_beep_loop.simps [of env driver parms i s])
          next
            case (Inr b)
            have I4: "I s4" using sl [OF I3, of "delay parms"] p2 Inr by simp
            with Inr p2 True lt p1 r1 Suc.hyps(1) [OF m I4] show ?thesis
              by (simp add: play_beep_loop.simps [of env driver parms i s])
          qed
        qed
      qed
    qed
  qed
qed


lemma play_beep_outcome_freq:
  assumes ev: "\<And>e s. request_event e \<Longrightarrow> uses_handle driver e \<Longrightarrow> uses_freq parms e \<Longrightarrow> I s
                 \<Longrightarrow> I (emit e s)"
      and sl: "\<And>ms s. I s \<Longrightarrow> outcome I Q (sleep_ms env driver ms s)"
  shows "I s \<Longrightarrow> outcome I Q (play_beep env driver parms s)"
  unfolding play_beep_def
proof (rule play_beep_loop_outcome_freq [where I = I and Q = Q])
  show "I (emit e s)" if "is_tone e" "uses_handle driver e" "uses_freq parms e" "I s" for e s
    using that ev [of e s] by (cases e) simp_all
  show "outcome I Q (sleep_ms env driver ms s)" if "I s" for ms s
    using that by (rule sl)
  show "I s \<Longrightarrow> I (emit (Log_verbose ''%d times %d ms beeps (%d ms delay between, %d ms delay after) @ %d Hz''
                [AU (reps parms), AU (length_ms parms), AU (delay parms),
                 AE (end_delay parms), AU (freq parms)]) s)"
    by (simp add: ev)
qed


lemma char_loop_outcome_freq:
  assumes ev: "\<And>e s. request_event e \<Longrightarrow> uses_handle driver e \<Longrightarrow> uses_freq parms e \<Longrightarrow> I s
                 \<Longrightarrow> I (emit e s)"
      and sl: "\<And>ms s. I s \<Longrightarrow> outcome I Q (sleep_ms env driver ms s)"
  shows "I s \<Longrightarrow> outcome I Q (char_loop env driver parms cs s)"
proof (induction cs arbitrary: s)
  case Nil
  then show ?case by simp
next
  case (Cons c cs)
  let ?s1 = "emit Fflush_stdout (emit (Putchar c) s)"
  have I1: "I ?s1" using ev Cons.prems by simp
  have pb: "outcome I Q (play_beep env driver parms ?s1)"
    by (rule play_beep_outcome_freq [where I = I and Q = Q, OF ev sl I1])
  show ?case
  proof (cases "play_beep env driver parms ?s1")
    case (Pair r s')
    with pb Cons.IH [of s'] Cons.prems show ?thesis by (cases r) auto
  qed
qed

lemma stdin_chunk_outcome_freq:
  assumes ev: "\<And>e s. request_event e \<Longrightarrow> uses_handle driver e \<Longrightarrow> uses_freq parms e \<Longrightarrow> I s
                 \<Longrightarrow> I (emit e s)"
      and sl: "\<And>ms s. I s \<Longrightarrow> outcome I Q (sleep_ms env driver ms s)"
  shows "I s \<Longrightarrow> outcome I Q (stdin_chunk env driver parms buf s)"
  unfolding stdin_chunk_def
  using char_loop_outcome_freq [where I = I and Q = Q, OF ev sl]
        play_beep_outcome_freq [where I = I and Q = Q, OF ev sl] ev
  by simp

lemma stdin_loop_outcome_freq:
  assumes ev: "\<And>e s. request_event e \<Longrightarrow> uses_handle driver e \<Longrightarrow> uses_freq parms e \<Longrightarrow> I s
                 \<Longrightarrow> I (emit e s)"
      and sl: "\<And>ms s. I s \<Longrightarrow> outcome I Q (sleep_ms env driver ms s)"
      and rd: "\<And>s r. I s \<Longrightarrow> I (s\<lparr>stdin_rest := r\<rparr>)"
  shows "I s \<Longrightarrow> outcome I Q (stdin_loop env driver parms s)"
proof (induction "length (stdin_rest s)" arbitrary: s rule: less_induct)
  case less
  show ?case
  proof (cases "fgets 4096 (stdin_rest s)")
    case None
    with less.prems ev show ?thesis by (simp add: stdin_loop.simps [of env driver parms s])
  next
    case (Some x)
    obtain buf rest where x: "x = (buf, rest)" by (cases x)
    let ?s1 = "(emit (Fgets (Some buf)) s)\<lparr>stdin_rest := rest\<rparr>"
    have I1: "I ?s1" using ev rd less.prems by simp
    have ch: "outcome I Q (stdin_chunk env driver parms buf ?s1)"
      by (rule stdin_chunk_outcome_freq [where I = I and Q = Q, OF ev sl I1])
    show ?thesis
    proof (cases "stdin_chunk env driver parms buf ?s1")
      case (Pair r s')
      show ?thesis
      proof (cases r)
        case (Inl c)
        with Pair ch Some x show ?thesis by (simp add: stdin_loop.simps [of env driver parms s])
      next
        case (Inr u)
        have "stdin_rest s' = rest"
          using stdin_chunk_stdin_rest [of env driver parms buf ?s1] Pair by simp
        then have "length (stdin_rest s') < length (stdin_rest s)"
          using fgets_shorter Some x by metis
        moreover have "I s'" using ch Pair Inr by simp
        ultimately have "outcome I Q (stdin_loop env driver parms s')"
          by (rule less.hyps)
        with Pair Inr Some x show ?thesis
          by (simp add: stdin_loop.simps [of env driver parms s])
      qed
    qed
  qed
qed


lemma play_chain_outcome_freq:
  assumes ev: "\<And>e s. playback_event e \<Longrightarrow> uses_handle driver e \<Longrightarrow> \<exists>p\<in>P. uses_freq p e \<Longrightarrow> I s
                 \<Longrightarrow> I (emit e s)"
      and sl: "\<And>ms s. I s \<Longrightarrow> outcome I Q (sleep_ms env driver ms s)"
      and rd: "\<And>s r. I s \<Longrightarrow> I (s\<lparr>stdin_rest := r\<rparr>)"
  shows "set chain \<subseteq> P \<Longrightarrow> I s \<Longrightarrow> outcome I Q (play_chain env driver chain s)"
proof (induction chain arbitrary: s)
  case Nil
  then show ?case by simp
next
  case (Cons parms rest)
  have pP: "parms \<in> P" and rP: "set rest \<subseteq> P" using Cons.prems(1) by simp_all
  have rq: "I (emit e s)" if "request_event e" "uses_handle driver e" "uses_freq parms e" "I s"
    for e s
    using that pP ev [of e s] by (auto simp: playback_event_def)
  have ce: "I (emit e s)" if "chain_event e" "I s" for e s
  proof -
    have "uses_handle driver e" and "uses_freq parms e" using that(1) by (cases e; simp)+
    then show ?thesis using that pP ev [of e s] by (auto simp: playback_event_def)
  qed
  let ?x = "if stdin_beep parms \<noteq> STDIN_BEEP_NONE
            then stdin_loop env driver parms
                   (emit Setvbuf_stdout_IONBF (emit Setvbuf_stdin_IONBF s))
            else play_beep env driver parms s"
  have "I (emit Setvbuf_stdout_IONBF (emit Setvbuf_stdin_IONBF s))"
    using ce Cons.prems(2) by simp
  then have x: "outcome I Q ?x"
    using stdin_loop_outcome_freq [where I = I and Q = Q, OF rq sl rd]
          play_beep_outcome_freq [where I = I and Q = Q, OF rq sl Cons.prems(2)]
    by simp
  show ?case
  proof (cases ?x)
    case (Pair r s')
    show ?thesis
    proof (cases r)
      case (Inl c)
      with Pair x show ?thesis by simp
    next
      case (Inr u)
      then have "I (emit (Free parms) s')" using x Pair ce by simp
      then have "outcome I Q (play_chain env driver rest (emit (Free parms) s'))"
        using Cons.IH [OF rP] by simp
      with Pair Inr show ?thesis by simp
    qed
  qed
qed

lemma play_chain_outcome:
  assumes ev: "\<And>e s. playback_event e \<Longrightarrow> uses_handle driver e \<Longrightarrow> I s \<Longrightarrow> I (emit e s)"
      and sl: "\<And>ms s. I s \<Longrightarrow> outcome I Q (sleep_ms env driver ms s)"
      and rd: "\<And>s r. I s \<Longrightarrow> I (s\<lparr>stdin_rest := r\<rparr>)"
  shows "I s \<Longrightarrow> outcome I Q (play_chain env driver chain s)"
  using play_chain_outcome_freq
          [where I = I and Q = Q and driver = driver and env = env and P = "set chain"
             and chain = chain]
        ev sl rd
  by blast

lemma sig_run_append:
  "sig_run ph (xs @ ys) = (case sig_run ph xs of None \<Rightarrow> None | Some ph' \<Rightarrow> sig_run ph' ys)"
  by (induction xs arbitrary: ph) (auto split: option.splits)

lemma sig_step_playback: "playback_event e \<Longrightarrow> sig_step Default e = Some Default"
  by (cases e) (auto simp: sig_step_def playback_event_def)

lemma sig_run_sleep:
  "sig_run Default (sleep_done ms) = Some Default"
  "sig_run Default (sleep_torn driver ms) = Some Exited"
  by (simp_all add: sleep_done_def sleep_torn_def sleep_call_def sig_step_def)

lemma sig_ok_emit:
  "playback_event e \<Longrightarrow> uses_handle driver e \<Longrightarrow> sig_ok s \<Longrightarrow> sig_ok (emit e s)"
  by (simp add: sig_ok_def emit_def sig_run_append sig_step_playback)

lemma sig_ok_sleep: "sig_ok s \<Longrightarrow> outcome sig_ok sig_exited (sleep_ms env driver ms s)"
  by (simp add: sleep_ms_eq sig_ok_def sig_exited_def advance_fields sig_run_append sig_run_sleep)

lemma sig_ok_stdin: "sig_ok s \<Longrightarrow> sig_ok (s\<lparr>stdin_rest := r\<rparr>)"
  by (simp add: sig_ok_def)

lemma play_chain_sig:
  "sig_ok s \<Longrightarrow> outcome sig_ok sig_exited (play_chain env driver chain s)"
  by (rule play_chain_outcome [where I = sig_ok and Q = sig_exited])
     (simp_all add: sig_ok_emit sig_ok_sleep sig_ok_stdin)

lemma live_emit:
  "playback_event e \<Longrightarrow> uses_handle driver e \<Longrightarrow> live env s \<Longrightarrow> live env (emit e s)"
  by (cases e) (auto simp: live_def emit_def playback_event_def)

lemma live_sleep: "live env s \<Longrightarrow> outcome (live env) (torn env driver) (sleep_ms env driver ms s)"
  by (auto simp: sleep_ms_eq live_def torn_def advance_fields less_Suc_eq sleep_done_def
        sleep_call_def)

lemma live_stdin: "live env s \<Longrightarrow> live env (s\<lparr>stdin_rest := r\<rparr>)"
  by (simp add: live_def)

lemma play_chain_live:
  "live env s \<Longrightarrow> outcome (live env) (torn env driver) (play_chain env driver chain s)"
  by (rule play_chain_outcome [where I = "live env" and Q = "torn env driver"])
     (simp_all add: live_emit live_sleep live_stdin)

lemma startup_refl [simp]: "startup s s"
  by (simp add: startup_def)

lemma startup_trans: "startup s s1 \<Longrightarrow> startup s1 s2 \<Longrightarrow> startup s s2"
  by (auto simp: startup_def)

lemma startup_emit: "startup_event e \<Longrightarrow> startup s (emit e s)"
  by (simp add: startup_def emit_def)

lemma startup_emit2: "startup_event e \<Longrightarrow> startup s s1 \<Longrightarrow> startup s (emit e s1)"
  using startup_trans startup_emit by blast

lemma startup_log_level [simp]: "startup s (s\<lparr>log_level := l\<rparr>)"
  by (simp add: startup_def)

lemma startup_device [simp]: "startup s (s\<lparr>param_device_name := n\<rparr>)"
  by (simp add: startup_def)

lemma left_trans: "startup s s1 \<Longrightarrow> left s1 c s2 \<Longrightarrow> left s c s2"
  using startup_trans by (fastforce simp: left_def)

lemma left_exit: "startup s s1 \<Longrightarrow> left s c (snd (exit_with c s1 :: (int + 'a) \<times> 'd world))"
  by (auto simp: left_def exit_with_def)

lemma started_simps [simp]:
  "started s (Inl c, s') = left s c s'"
  "started s (Inr a, s') = startup s s'"
  by (simp_all add: started_def)

lemma started_exit: "startup s s1 \<Longrightarrow> started s (exit_with c s1)"
  by (auto simp: left_def exit_with_def)

lemma started_usage: "started s (usage_bail env s)"
  by (simp add: usage_bail_def print_usage_def started_exit startup_emit)

lemma started_scan: "started s (scan_bounded env optarg store s)"
  by (simp add: scan_bounded_def started_usage split: option.splits)

lemma started_parse_option: "started s (parse_option env opt st s)"
  by (simp add: parse_option_def Let_def started_usage started_scan started_exit startup_emit
        print_usage_def split: option.splits)

lemma started_parse_options: "started s (parse_options env opts st s)"
proof (induction opts arbitrary: st s)
  case Nil
  show ?case by simp
next
  case (Cons opt opts)
  show ?case
  proof (cases "parse_option env opt st s")
    case (Pair r s1)
    show ?thesis
    proof (cases r)
      case (Inl c)
      with Pair started_parse_option [of s env opt st] show ?thesis by simp
    next
      case (Inr st')
      with Pair started_parse_option [of s env opt st] have a: "startup s s1" by simp
      have b: "started s1 (parse_options env opts st' s1)" by (rule Cons.IH)
      show ?thesis
      proof (cases "parse_options env opts st' s1")
        case p2: (Pair r2 s2)
        with a b Pair Inr show ?thesis
          by (cases r2) (auto intro: startup_trans left_trans)
      qed
    qed
  qed
qed

lemma started_parse_command_line: "started s (parse_command_line env argv result s)"
proof (cases "parse_options env (fst (getopt_long_seq env argv)) ([], result) s")
  case (Pair r s1)
  with started_parse_options [of s env "fst (getopt_long_seq env argv)" "([], result)"]
  show ?thesis
    by (cases r)
       (auto simp: parse_command_line_def usage_bail_def print_usage_def
             intro!: started_exit startup_emit2)
qed

lemma left_emit: "startup s s1 \<Longrightarrow> left s c (emit (Exit c) s1)"
  by (auto simp: left_def)

lemma main_cases:
  assumes "main env argv s0 = (r, s')"
  shows "(\<exists>c. r = Inl c \<and> left s0 c s') \<or>
         (\<exists>chain s2 driver.
            parse_command_line env argv default_parms (emit Log_init s0) = (Inr chain, s2)
            \<and> startup s0 s2
            \<and> beep_drivers_detect env (param_device_name s2) = Some driver
            \<and> main_play env driver chain
                 (advance [Register ''console_driver'', Register ''evdev_driver'',
                           Detect (param_device_name s2)] 0 s2) = (r, s'))"
proof -
  let ?s1 = "emit Log_init s0"
  have s1: "startup s0 ?s1" by (simp add: startup_emit)
  show ?thesis
  proof (cases "getuid env \<noteq> geteuid env \<or> getgid env \<noteq> getegid env")
    case True
    let ?x = "emit (Log_error ''Set up permissions for the pcspkr evdev device file instead.'' [])
             (emit (Log_error ''Running setuid or setgid, which is not supported for security reasons.'' [])
                ?s1)"
    have "startup s0 ?x" by (intro startup_emit2 startup_refl) simp_all
    moreover have "r = Inl EXIT_FAILURE \<and> s' = emit (Exit EXIT_FAILURE) ?x"
      using assms True by (simp add: main_def Let_def exit_with_def)
    ultimately show ?thesis using left_emit by blast
  next
    case ids: False
    show ?thesis
    proof (cases "getenv env ''SUDO_COMMAND'' \<noteq> None \<or> getenv env ''SUDO_USER'' \<noteq> None
              \<or> getenv env ''SUDO_UID'' \<noteq> None \<or> getenv env ''SUDO_GID'' \<noteq> None")
      case True
      let ?x = "emit (Log_error ''Set up permissions for the pcspkr evdev device file instead.'' [])
             (emit (Log_error ''Running under sudo, which is not supported for security reasons.'' [])
                ?s1)"
      have "startup s0 ?x" by (intro startup_emit2 startup_refl) simp_all
      moreover have "r = Inl EXIT_FAILURE \<and> s' = emit (Exit EXIT_FAILURE) ?x"
        using assms ids True by (simp add: main_def Let_def exit_with_def)
      ultimately show ?thesis using left_emit by blast
    next
      case sudo: False
      show ?thesis
      proof (cases "malloc_ok env")
        case False
        have "startup s0 (emit (Perror ''malloc'') ?s1)"
          by (intro startup_emit2 startup_refl) simp_all
        moreover have "r = Inl EXIT_FAILURE \<and> s' = emit (Exit EXIT_FAILURE) (emit (Perror ''malloc'') ?s1)"
          using assms ids sudo False by (simp add: main_def Let_def exit_with_def)
        ultimately show ?thesis using left_emit by blast
      next
        case mem: True
        show ?thesis
        proof (cases "parse_command_line env argv default_parms ?s1")
          case (Pair pr s2)
          have st: "started ?s1 (pr, s2)"
            using started_parse_command_line [of ?s1 env argv default_parms] Pair by simp
          show ?thesis
          proof (cases pr)
            case (Inl c)
            with st s1 have "left s0 c s2" by (simp add: left_trans)
            moreover have "r = Inl c \<and> s' = s2"
              using assms ids sudo mem Pair Inl by (simp add: main_def Let_def)
            ultimately show ?thesis by blast
          next
            case (Inr chain)
            with st s1 have s2: "startup s0 s2" using startup_trans by auto
            let ?s3 = "emit (Register ''evdev_driver'') (emit (Register ''console_driver'') s2)"
            have s3: "startup s0 ?s3" by (intro startup_emit2 s2) simp_all
            have pd: "param_device_name ?s3 = param_device_name s2" by (simp add: emit_def)
            let ?s4 = "emit (Detect (param_device_name s2)) ?s3"
            have s4: "startup s0 ?s4" by (intro startup_emit2 s2) simp_all
            have s4': "?s4 = advance [Register ''console_driver'', Register ''evdev_driver'',
                           Detect (param_device_name s2)] 0 s2"
              by (simp add: emit_def advance_def)
            show ?thesis
            proof (cases "beep_drivers_detect env (param_device_name s2)")
              case None
              have "r = Inl EXIT_FAILURE \<and> left s0 EXIT_FAILURE s'"
              proof (cases "param_device_name s2")
                case nm: None
                let ?x = "fallback_beep env (emit (Log_error ''Could not open any device'' []) ?s4)"
                have "startup s0 ?x"
                  unfolding fallback_beep_def
                  by (cases "isatty_stdout env"; simp) (intro startup_emit2 s2; simp)+
                moreover have "r = Inl EXIT_FAILURE \<and> s' = emit (Exit EXIT_FAILURE) ?x"
                  using assms ids sudo mem Pair Inr None nm pd
                  by (simp add: main_def Let_def exit_with_def)
                ultimately show ?thesis using left_emit by blast
              next
                case (Some name)
                let ?x = "emit (Log_error ''Could not open %s for writing: %s''
                                  [AS name, AS (strerror_errno env)]) ?s4"
                have "startup s0 ?x"
                  by (intro startup_emit2 s2) simp_all
                moreover have "r = Inl EXIT_FAILURE \<and> s' = emit (Exit EXIT_FAILURE) ?x"
                  using assms ids sudo mem Pair Inr None Some pd
                  by (simp add: main_def Let_def exit_with_def)
                ultimately show ?thesis using left_emit by blast
              qed
              then show ?thesis by blast
            next
              case (Some driver)
              have "main_play env driver chain ?s4 = (r, s')"
                using assms ids sudo mem Pair Inr Some pd
                by (cases "param_device_name s2") (auto simp: main_def Let_def)
              with Some Pair Inr s2 s4' show ?thesis by auto
            qed
          qed
        qed
      qed
    qed
  qed
qed

lemma sig_run_startup: "list_all startup_event es \<Longrightarrow> sig_run Default es = Some Default"
proof (induction es)
  case Nil
  show ?case by simp
next
  case (Cons e es)
  then have "sig_step Default e = Some Default"
    by (cases e) (simp_all add: sig_step_def)
  with Cons show ?case by simp
qed

lemma startup_sig: "startup s s' \<Longrightarrow> sig_ok s \<Longrightarrow> sig_ok s'"
  by (auto simp: startup_def sig_ok_def sig_run_append sig_run_startup)

lemma left_sig: "left s c s' \<Longrightarrow> sig_ok s \<Longrightarrow> sig_exited s'"
  using startup_sig
  by (fastforce simp: left_def sig_ok_def sig_exited_def emit_def sig_run_append sig_step_def)

lemma main_play_sig:
  assumes "sig_ok s"
  shows "sig_run Default (trace (snd (main_play env driver chain s))) =
           Some (case fst (main_play env driver chain s) of Inl c \<Rightarrow> Exited | Inr v \<Rightarrow> Default)"
proof -
  let ?s1 = "emit (Log_verbose ''beep: using driver %p (name=%s, fd=%d, dev=%s)'' [AD driver]) s"
  have "sig_ok ?s1" using assms by (simp add: sig_ok_emit [where driver = driver] playback_event_def)
  then have o: "outcome sig_ok sig_exited (play_chain env driver chain ?s1)"
    by (rule play_chain_sig)
  show ?thesis
  proof (cases "play_chain env driver chain ?s1")
    case (Pair r s')
    with o show ?thesis
      by (cases r)
         (simp_all add: main_play_def sig_ok_def sig_exited_def emit_def sig_run_append
            sig_step_def)
  qed
qed

lemma main_sig:
  "sig_run Default (trace (snd (main env argv (initial_world input level)))) =
     Some (case fst (main env argv (initial_world input level)) of
             Inl c \<Rightarrow> Exited | Inr v \<Rightarrow> Default)"
proof -
  let ?s0 = "initial_world input level :: 'a world"
  have ok0: "sig_ok ?s0" by (simp add: sig_ok_def initial_world_def)
  obtain r s' where m: "main env argv ?s0 = (r, s')" by (cases "main env argv ?s0")
  from main_cases [OF m] show ?thesis
  proof
    assume "\<exists>c. r = Inl c \<and> left ?s0 c s'"
    then show ?thesis using m ok0 left_sig by (fastforce simp: sig_exited_def)
  next
    assume "\<exists>chain s2 driver.
            parse_command_line env argv default_parms (emit Log_init ?s0) = (Inr chain, s2)
            \<and> startup ?s0 s2
            \<and> beep_drivers_detect env (param_device_name s2) = Some driver
            \<and> main_play env driver chain
                 (advance [Register ''console_driver'', Register ''evdev_driver'',
                           Detect (param_device_name s2)] 0 s2) = (r, s')"
    then obtain chain s2 driver where s2: "startup ?s0 s2"
      and mp: "main_play env driver chain
                 (advance [Register ''console_driver'', Register ''evdev_driver'',
                           Detect (param_device_name s2)] 0 s2) = (r, s')"
      by blast
    have "sig_ok s2" using startup_sig [OF s2 ok0] .
    then have "sig_ok (advance [Register ''console_driver'', Register ''evdev_driver'',
                           Detect (param_device_name s2)] 0 s2)"
      by (simp add: sig_ok_def advance_fields sig_run_append sig_step_def)
    from main_play_sig [OF this, of env driver chain] mp m show ?thesis by simp
  qed
qed

lemma startup_live: "startup s s' \<Longrightarrow> live env s \<Longrightarrow> live env s'"
proof -
  have "list_all startup_event es \<Longrightarrow> filter is_end es = []" for es :: "'a event list"
  proof (induction es)
    case Nil
    show ?case by simp
  next
    case (Cons e es)
    then show ?case by (cases e) simp_all
  qed
  then show "startup s s' \<Longrightarrow> live env s \<Longrightarrow> live env s'"
    by (auto simp: startup_def live_def)
qed

lemma main_play_live:
  assumes "live env s" and "main_play env driver chain s = (r, s')"
  shows "(r = Inl EXIT_FAILURE \<and> torn env driver s') \<or>
         (r = Inr EXIT_SUCCESS \<and> (\<forall>k<nsleeps s'. \<not> interrupted env k)
            \<and> filter is_end (trace s') = [Fini driver])"
proof -
  let ?s1 = "emit (Log_verbose ''beep: using driver %p (name=%s, fd=%d, dev=%s)'' [AD driver]) s"
  have "live env ?s1" using assms(1) by (simp add: live_emit [where driver = driver] playback_event_def)
  then have o: "outcome (live env) (torn env driver) (play_chain env driver chain ?s1)"
    by (rule play_chain_live)
  show ?thesis
  proof (cases "play_chain env driver chain ?s1")
    case (Pair r1 s1)
    with o assms(2) show ?thesis
      by (cases r1) (auto simp: main_play_def live_def emit_def)
  qed
qed

lemmas run_defs =
  main_def main_play_def parse_command_line_def parse_option_def scan_bounded_def
  usage_bail_def print_usage_def exit_with_def emit_def default_parms_def play_beep_def
  sleep_ms_def stdin_chunk_def fallback_beep_def initial_world_def example_env_def
  play_beep_loop.simps stdin_loop.simps fgets_def c_string_def
  DEFAULT_FREQ_def DEFAULT_LENGTH_def DEFAULT_REPS_def DEFAULT_DELAY_def
  DEFAULT_END_DELAY_def DEFAULT_STDIN_BEEP_def EXIT_SUCCESS_def EXIT_FAILURE_def EINTR_def
  NUL_def newline_def BEL_def Let_def interrupted_def

lemma ex1: "nsleeps (snd (main (example_env (\<lambda>k. if k = 2 then (- 1, 4) else (0, 0)) [(CHR ''r'', ''2'')] (Some ''evdev''))
          [''beep'', ''-r'', ''2''] (initial_world '''' 0))) = 3"
  by (simp add: run_defs)

lemma play_beep_zero:
  "reps parms = 0 \<Longrightarrow> play_beep env driver parms s = (Inr (), emit (play_log parms) s)"
  by (simp add: play_beep_def play_log_def play_beep_loop_end)

lemma play_beep_tones:
  assumes "play_beep env driver parms s = (Inr u, s')"
  shows "filter is_tone (trace s') =
           filter is_tone (trace s) @
           concat (replicate (unat (reps parms))
                     [Begin_tone driver (freq parms AND 0xffff), End_tone driver])"
  using play_beep_loop_tones [OF assms [unfolded play_beep_def]]
  by (simp add: emit_def)

lemma play_beep_phases:
  assumes "play_beep env driver parms s = (Inr u, s')"
  shows "filter is_phase (trace s') =
           filter is_phase (trace s) @ expected_phases driver parms (unat (reps parms))"
  using play_beep_loop_phases [OF assms [unfolded play_beep_def]]
  by (simp add: emit_def)

lemma play_beep_returns:
  "\<forall>k. \<not> interrupted env k \<Longrightarrow> fst (play_beep env driver parms s) = Inr ()"
  by (simp add: play_beep_def play_beep_loop_returns)

lemma delay_sleeps_blocks:
  "delay_sleeps (concat (replicate n (rep_block driver parms)) @ es) = n + delay_sleeps es"
  by (induction n) (simp_all add: rep_block_def delay_sleep_at_def nanosleep_of_def)

lemma butlast_blocks:
  "butlast (concat (replicate (Suc n) (rep_block driver parms))) =
     concat (replicate n (rep_block driver parms)) @
     [Begin_tone driver (freq parms AND 0xffff), nanosleep_of (length_ms parms), End_tone driver]"
proof -
  have "replicate (Suc n) (rep_block driver parms) =
          replicate n (rep_block driver parms) @ [rep_block driver parms]"
    by (simp add: replicate_append_same)
  then show ?thesis by (simp add: butlast_append) (simp add: rep_block_def)
qed

lemma delay_sleeps_expected:
  "delay_sleeps (expected_phases driver parms n) =
     (if end_delay parms = END_DELAY_YES then n else n - 1)"
proof (cases n)
  case 0
  then show ?thesis by (simp add: expected_phases_def)
next
  case (Suc m)
  show ?thesis
    using delay_sleeps_blocks [of n driver parms "[]"]
          delay_sleeps_blocks [of m driver parms
            "[Begin_tone driver (freq parms AND 0xffff), nanosleep_of (length_ms parms),
              End_tone driver]"]
    by (simp add: expected_phases_def Suc butlast_blocks delay_sleep_at_def nanosleep_of_def
          del: replicate.simps)
qed

lemma quiet_refl [simp]: "quiet s s"
  by (simp add: quiet_def)

lemma quiet_trans: "quiet s s1 \<Longrightarrow> quiet s1 s2 \<Longrightarrow> quiet s s2"
  by (simp add: quiet_def)

lemma scan_bounded_Inr:
  "scan_bounded env optarg store s = (Inr st, s') \<Longrightarrow> s' = s"
  by (auto simp: scan_bounded_def usage_bail_def exit_with_def split: option.splits if_splits)

lemma parse_option_quiet:
  "parse_option env opt st s = (Inr st', s') \<Longrightarrow> quiet s s'"
  by (auto simp: parse_option_def Let_def usage_bail_def exit_with_def quiet_def emit_def
        not_warning_def
        dest!: scan_bounded_Inr split: option.splits if_splits)

lemma parse_options_quiet:
  "parse_options env opts st s = (Inr st', s') \<Longrightarrow> quiet s s'"
proof (induction opts arbitrary: st s)
  case Nil
  then show ?case by simp
next
  case (Cons opt opts)
  show ?case
  proof (cases "parse_option env opt st s")
    case (Pair r s1)
    show ?thesis
    proof (cases r)
      case (Inl c)
      with Pair Cons.prems show ?thesis by simp
    next
      case (Inr st1)
      with Pair Cons.prems have "parse_options env opts st1 s1 = (Inr st', s')" by simp
      then have "quiet s1 s'" by (rule Cons.IH)
      moreover have "quiet s s1" using Pair Inr parse_option_quiet by metis
      ultimately show ?thesis using quiet_trans by blast
    qed
  qed
qed

lemma parse_command_line_quiet:
  "parse_command_line env argv result s = (Inr chain, s') \<Longrightarrow> quiet s s'"
proof (cases "parse_options env (fst (getopt_long_seq env argv)) ([], result) s")
  case (Pair r s1)
  assume a: "parse_command_line env argv result s = (Inr chain, s')"
  show ?thesis
  proof (cases r)
    case (Inl c)
    with Pair a show ?thesis by (simp add: parse_command_line_def)
  next
    case (Inr st)
    with Pair a have "s' = s1"
      by (auto simp: parse_command_line_def usage_bail_def exit_with_def split: if_splits)
    with Pair Inr parse_options_quiet show ?thesis by metis
  qed
qed

lemma main_run:
  assumes "passes_checks env"
      and "parse_command_line env argv default_parms (emit Log_init s0) = (Inr chain, s2)"
      and "beep_drivers_detect env (param_device_name s2) = Some driver"
  shows "main env argv s0 = main_play env driver chain (opened s2)"
proof -
  have "emit (Detect (param_device_name s2))
          (emit (Register ''evdev_driver'') (emit (Register ''console_driver'') s2)) = opened s2"
    by (simp add: opened_def emit_def advance_def)
  moreover have "param_device_name
          (emit (Register ''evdev_driver'') (emit (Register ''console_driver'') s2)) =
          param_device_name s2"
    by (simp add: emit_def)
  ultimately show ?thesis
    using assms
    by (cases "param_device_name s2") (simp_all add: main_def Let_def passes_checks_def)
qed

lemma main_no_device:
  assumes "passes_checks env"
      and "parse_command_line env argv default_parms (emit Log_init s0) = (Inr chain, s2)"
      and "beep_drivers_detect env (param_device_name s2) = None"
  shows "main env argv s0 =
           (Inl EXIT_FAILURE,
            advance
              ((case param_device_name s2 of
                  None \<Rightarrow> Log_error ''Could not open any device'' []
                            # (if isatty_stdout env then [Fputc_stdout BEL] else [])
                | Some name \<Rightarrow> [Log_error ''Could not open %s for writing: %s''
                                   [AS name, AS (strerror_errno env)]])
               @ [Exit EXIT_FAILURE]) 0 (opened s2))"
  using assms
  by (cases "param_device_name s2")
     (simp_all add: main_def Let_def passes_checks_def opened_def emit_def advance_def
        exit_with_def fallback_beep_def)

lemma lifecycle_emit:
  "playback_event e \<Longrightarrow> uses_handle driver e \<Longrightarrow> lifecycle_is es s
     \<Longrightarrow> lifecycle_is es (emit e s)"
  by (cases e) (simp_all add: lifecycle_is_def emit_def playback_event_def)

lemma lifecycle_sleep:
  "lifecycle_is es s \<Longrightarrow> outcome (lifecycle_is es) anything (sleep_ms env driver ms s)"
  by (simp add: sleep_ms_eq lifecycle_is_def anything_def advance_fields sleep_done_def
        sleep_call_def)

lemma lifecycle_stdin: "lifecycle_is es s \<Longrightarrow> lifecycle_is es (s\<lparr>stdin_rest := r\<rparr>)"
  by (simp add: lifecycle_is_def)

lemma play_chain_lifecycle:
  "lifecycle_is es s \<Longrightarrow>
   outcome (lifecycle_is es) anything (play_chain env driver chain s)"
  by (rule play_chain_outcome [where I = "lifecycle_is es" and Q = anything])
     (simp_all add: lifecycle_emit lifecycle_sleep lifecycle_stdin)

lemma main_play_lifecycle:
  assumes "main_play env driver chain s = (Inr v, s')"
  shows "filter is_lifecycle (trace s') = filter is_lifecycle (trace s) @ [Fini driver]"
proof -
  let ?es = "filter is_lifecycle (trace s)"
  have "lifecycle_is ?es (emit (driver_log driver) s)"
    by (simp add: lifecycle_is_def emit_def driver_log_def)
  then have o: "outcome (lifecycle_is ?es) anything
                  (play_chain env driver chain (emit (driver_log driver) s))"
    by (rule play_chain_lifecycle)
  show ?thesis
  proof (cases "play_chain env driver chain (emit (driver_log driver) s)")
    case (Pair r s1)
    with o assms show ?thesis
      by (cases r) (auto simp: main_play_def driver_log_def lifecycle_is_def emit_def)
  qed
qed

lemma handles_emit:
  "playback_event e \<Longrightarrow> uses_handle d e \<Longrightarrow> handles_are d s \<Longrightarrow> handles_are d (emit e s)"
  by (simp add: handles_are_def emit_def)

lemma handles_sleep:
  "handles_are d s \<Longrightarrow> outcome (handles_are d) (handles_are d) (sleep_ms env d ms s)"
  by (simp add: sleep_ms_eq handles_are_def advance_fields sleep_done_def sleep_torn_def
        sleep_call_def)

lemma handles_stdin: "handles_are d s \<Longrightarrow> handles_are d (s\<lparr>stdin_rest := r\<rparr>)"
  by (simp add: handles_are_def)

lemma play_chain_handles:
  "handles_are d s \<Longrightarrow> outcome (handles_are d) (handles_are d) (play_chain env d chain s)"
  by (rule play_chain_outcome [where I = "handles_are d" and Q = "handles_are d"])
     (simp_all add: handles_emit handles_sleep handles_stdin)

lemma main_play_handles:
  assumes "handles_are d s"
  shows "handles_are d (snd (main_play env d chain s))"
proof -
  have "handles_are d (emit (driver_log d) s)"
    using assms by (simp add: handles_are_def emit_def driver_log_def)
  then have o: "outcome (handles_are d) (handles_are d)
                  (play_chain env d chain (emit (driver_log d) s))"
    by (rule play_chain_handles)
  show ?thesis
  proof (cases "play_chain env d chain (emit (driver_log d) s)")
    case (Pair r s1)
    with o show ?thesis
      by (cases r) (auto simp: main_play_def driver_log_def handles_are_def emit_def)
  qed
qed





lemma lifecycle_quiet:
  assumes "quiet s s2"
  shows "filter is_lifecycle (trace s2) = filter is_lifecycle (trace s)"
proof -
  have "filter is_lifecycle xs = filter is_lifecycle (filter not_warning xs)"
    for xs :: "'a event list"
  proof (induction xs)
    case Nil
    show ?case by simp
  next
    case (Cons e xs)
    then show ?case by (cases e) (simp_all add: not_warning_def)
  qed
  then show ?thesis using assms by (metis quiet_def)
qed

lemma main_lifecycle:
  assumes "main env argv (initial_world input level) = (Inr v, w)"
  shows "\<exists>name d. beep_drivers_detect env name = Some d
           \<and> filter is_lifecycle (trace w) = [Detect name, Fini d]"
proof -
  let ?s0 = "initial_world input level :: 'a world"
  from main_cases [OF assms] obtain chain s2 driver
    where p: "parse_command_line env argv default_parms (emit Log_init ?s0) = (Inr chain, s2)"
      and d: "beep_drivers_detect env (param_device_name s2) = Some driver"
      and mp: "main_play env driver chain
                 (advance [Register ''console_driver'', Register ''evdev_driver'',
                           Detect (param_device_name s2)] 0 s2) = (Inr v, w)"
    by blast
  have "filter is_lifecycle (trace s2) = filter is_lifecycle (trace (emit Log_init ?s0))"
    using parse_command_line_quiet [OF p] by (rule lifecycle_quiet)
  then have "filter is_lifecycle (trace s2) = []"
    by (simp add: emit_def initial_world_def)
  with main_play_lifecycle [OF mp] d show ?thesis
    by (simp add: advance_fields)
qed

lemma replicate_2: "replicate 2 x = [x, x]"
  by (simp add: numeral_2_eq_2)

lemmas example_defs =
  run_defs example_parms_def never_interrupted_def interrupted_at_def play_log_def
  driver_log_def passes_checks_def opened_def advance_def

lemma usage_bail_eq: "usage_bail env s = usage_exit env s"
  by (simp add: usage_bail_def usage_exit_def print_usage_def exit_with_def emit_def advance_def)

lemma parse_option_bounded:
  assumes "ch = CHR ''l'' \<or> ch = CHR ''r'' \<or> ch = CHR ''d'' \<or> ch = CHR ''D''"
  shows "parse_option env (ch, optarg) (finished, result) s =
           (if rejected env optarg then usage_exit env s
            else (Inr (finished, store_bounded ch (the (sscanf_u env optarg)) result), s))"
  using assms
  by (auto simp: parse_option_def scan_bounded_def usage_bail_eq rejected_def store_bounded_def
        split: option.splits)

lemma parse_options_append:
  "parse_options env (pre @ opts) st s =
     (case parse_options env pre st s of
        (Inl c, s') \<Rightarrow> (Inl c, s')
      | (Inr st', s') \<Rightarrow> parse_options env opts st' s')"
proof (induction pre arbitrary: st s)
  case Nil
  show ?case by simp
next
  case (Cons opt pre)
  show ?case
  proof (cases "parse_option env opt st s")
    case (Pair r s1)
    then show ?thesis using Cons.IH by (cases r) simp_all
  qed
qed

lemma main_rejected:
  assumes "passes_checks env"
      and "ch = CHR ''l'' \<or> ch = CHR ''r'' \<or> ch = CHR ''d'' \<or> ch = CHR ''D''"
      and "fst (getopt_long_seq env argv) = pre @ (ch, optarg) # post"
      and "parse_options env pre ([], default_parms) (emit Log_init s0) = (Inr st, s1)"
      and "rejected env optarg"
  shows "main env argv s0 = usage_exit env s1"
proof -
  obtain finished result where st: "st = (finished, result)" by (cases st)
  have "parse_options env (pre @ (ch, optarg) # post) ([], default_parms) (emit Log_init s0) =
          usage_exit env s1"
    using assms(2,4,5) st
    by (simp add: parse_options_append parse_option_bounded usage_exit_def)
  then show ?thesis
    using assms(1,3)
    by (simp add: main_def Let_def passes_checks_def parse_command_line_def usage_exit_def)
qed

lemma filter_quiet:
  assumes "quiet s s2" and "\<And>e. P e \<Longrightarrow> not_warning e"
  shows "filter P (trace s2) = filter P (trace s)"
proof -
  have "filter P xs = filter P (filter not_warning xs)" for xs :: "'a event list"
    using assms(2) by (induction xs) auto
  then show ?thesis using assms(1) by (metis quiet_def)
qed






lemma stdin_mode_stops_at_nul:
  "filter is_stdin_call
     (trace (snd (play_chain (example_env never_interrupted [] (Some ''evdev'')) ''evdev''
                    [default_parms\<lparr>freq := 440, stdin_beep := STDIN_BEEP_CHAR\<rparr>]
                    (initial_world [CHR ''a'', CHR 0x00, CHR ''b'', CHR 0x0A] 0)))) =
     [Setvbuf_stdin_IONBF, Setvbuf_stdout_IONBF,
      Fgets (Some [CHR ''a'', CHR 0x00, CHR ''b'', CHR 0x0A, CHR 0x00]),
      Putchar (CHR ''a''),
      play_log (default_parms\<lparr>freq := 440, stdin_beep := STDIN_BEEP_CHAR\<rparr>),
      Fgets None]
   \<and> filter is_stdin_call
     (trace (snd (play_chain (example_env never_interrupted [] (Some ''evdev'')) ''evdev''
                    [default_parms\<lparr>freq := 440, stdin_beep := STDIN_BEEP_LINE\<rparr>]
                    (initial_world [CHR ''a'', CHR 0x00, CHR ''b'', CHR 0x0A] 0)))) =
     [Setvbuf_stdin_IONBF, Setvbuf_stdout_IONBF,
      Fgets (Some [CHR ''a'', CHR 0x00, CHR ''b'', CHR 0x0A, CHR 0x00]),
      Fputs_stdout ''a'',
      play_log (default_parms\<lparr>freq := 440, stdin_beep := STDIN_BEEP_LINE\<rparr>),
      Fgets None]"
  by (simp add: example_defs)











lemma parse_option_freq:
  assumes "sscanf_f env optarg = Some m" and "0 \<le> m" and "m \<le> f32_of_nat 20000"
  shows "parse_option env (CHR ''f'', optarg) (finished, result) s =
           (Inr (finished, result\<lparr>freq := word_of_int (f32_to_int (f32_add m f32_half))\<rparr>),
            if freq result \<noteq> 0
            then emit (Log_warning ''multiple -f values given, only last one is used.'') s
            else s)"
  using assms by (simp add: parse_option_def Let_def)



lemma takeWhile_replicate:
  "P x \<Longrightarrow> \<not> P y \<Longrightarrow> takeWhile P (replicate n x @ [y]) = replicate n x"
  by (induction n) simp_all

lemma fgets_long_line:
  "fgets 4096 (replicate 4096 (CHR ''x'') @ [newline]) =
     Some (replicate 4095 (CHR ''x'') @ [NUL], [CHR ''x'', newline])"
proof -
  have t: "takeWhile (\<lambda>c. c \<noteq> newline) (replicate 4096 (CHR ''x'') @ [newline]) =
             replicate 4096 (CHR ''x'')"
    by (rule takeWhile_replicate) (simp_all add: newline_def)
  have r: "replicate 4096 (CHR ''x'') = replicate 4095 (CHR ''x'') @ [CHR ''x'']"
    using replicate_add [of 4095 1 "CHR ''x''"] by simp
  show ?thesis
    unfolding fgets_def Let_def t
    by (simp add: r)
qed

lemma line_mode_plays_long_line_twice:
  "filter is_stdin_call
     (trace (snd (play_chain (example_env never_interrupted [] (Some ''evdev'')) ''evdev''
                    [default_parms\<lparr>freq := 440, stdin_beep := STDIN_BEEP_LINE\<rparr>]
                    (initial_world (replicate 4096 (CHR ''x'') @ [CHR 0x0A]) 0)))) =
     [Setvbuf_stdin_IONBF, Setvbuf_stdout_IONBF,
      Fgets (Some (replicate 4095 (CHR ''x'') @ [CHR 0x00])),
      Fputs_stdout (replicate 4095 (CHR ''x'')),
      play_log (default_parms\<lparr>freq := 440, stdin_beep := STDIN_BEEP_LINE\<rparr>),
      Fgets (Some [CHR ''x'', CHR 0x0A, CHR 0x00]),
      Fputs_stdout [CHR ''x'', CHR 0x0A],
      play_log (default_parms\<lparr>freq := 440, stdin_beep := STDIN_BEEP_LINE\<rparr>),
      Fgets None]"
proof -
  have c: "c_string (replicate 4095 (CHR ''x'') @ [NUL]) = replicate 4095 (CHR ''x'')"
    unfolding c_string_def by (rule takeWhile_replicate) (simp_all add: NUL_def)
  have f2: "fgets 4096 [CHR ''x'', newline] = Some ([CHR ''x'', newline, NUL], [])"
    by (simp add: fgets_def newline_def)
  have f3: "fgets 4096 [] = None" by (simp add: fgets_def)
  have c2: "c_string [CHR ''x'', newline, NUL] = [CHR ''x'', newline]"
    by (simp add: c_string_def NUL_def newline_def)
  have n: "newline = CHR 0x0A" "NUL = CHR 0x00" by (simp_all add: newline_def NUL_def)
  show ?thesis
    using fgets_long_line c f2 f3 c2
    by (simp add: n [symmetric] main_def main_play_def exit_with_def emit_def default_parms_def
          play_beep_def sleep_ms_def stdin_chunk_def initial_world_def example_env_def
          play_beep_loop.simps stdin_loop.simps
          DEFAULT_FREQ_def DEFAULT_LENGTH_def DEFAULT_REPS_def DEFAULT_DELAY_def
          DEFAULT_END_DELAY_def DEFAULT_STDIN_BEEP_def EXIT_SUCCESS_def EXIT_FAILURE_def
          EINTR_def Let_def never_interrupted_def play_log_def)
qed

lemma disposition_after_append:
  "disposition_after h (xs @ ys) = disposition_after (disposition_after h xs) ys"
  by (induction xs arbitrary: h) simp_all

lemma calls_installed_append:
  "calls_installed h (xs @ ys) =
     calls_installed h xs @ calls_installed (disposition_after h xs) ys"
  by (induction xs arbitrary: h) simp_all

lemma calm_emit:
  "playback_event e \<Longrightarrow> uses_handle d e \<Longrightarrow> calm s \<Longrightarrow> calm (emit e s)"
  by (cases e)
     (simp_all add: calm_def emit_def playback_event_def disposition_after_append
        calls_installed_append)

lemma calm_sleep: "calm s \<Longrightarrow> outcome calm (stopped d) (sleep_ms env d ms s)"
  by (simp add: sleep_ms_eq calm_def stopped_def advance_fields disposition_after_append
        calls_installed_append sleep_done_def sleep_torn_def sleep_call_def)

lemma calm_stdin: "calm s \<Longrightarrow> calm (s\<lparr>stdin_rest := r\<rparr>)"
  by (simp add: calm_def)

lemma play_chain_calm:
  "calm s \<Longrightarrow> outcome calm (stopped d) (play_chain env d chain s)"
  by (rule play_chain_outcome [where I = calm and Q = "stopped d"])
     (simp_all add: calm_emit calm_sleep calm_stdin)

lemma calm_startup_events:
  "list_all startup_event es \<Longrightarrow>
     disposition_after (SIG_DFL, SIG_DFL) es = (SIG_DFL, SIG_DFL)
     \<and> calls_installed (SIG_DFL, SIG_DFL) es = []"
proof (induction es)
  case Nil
  show ?case by simp
next
  case (Cons e es)
  then have "set_disposition (SIG_DFL, SIG_DFL) e = (SIG_DFL, SIG_DFL)"
    by (cases e) simp_all
  with Cons show ?case by simp
qed

lemma startup_calm: "startup s s' \<Longrightarrow> calm s \<Longrightarrow> calm s'"
  by (auto simp: startup_def calm_def disposition_after_append calls_installed_append
        calm_startup_events)

lemma left_calm: "left s c s' \<Longrightarrow> calm s \<Longrightarrow> calm s'"
  using startup_calm
  by (fastforce simp: left_def calm_def emit_def disposition_after_append
        calls_installed_append)

lemma main_play_calm:
  assumes "calm s" and "main_play env d chain s = (r, s')"
  shows "(r = Inl EXIT_FAILURE \<and> stopped d s') \<or> (r = Inr EXIT_SUCCESS \<and> calm s')"
proof -
  have "calm (emit (driver_log d) s)"
    using assms(1) by (simp add: calm_emit [where d = d] playback_event_def driver_log_def)
  then have o: "outcome calm (stopped d) (play_chain env d chain (emit (driver_log d) s))"
    by (rule play_chain_calm)
  show ?thesis
  proof (cases "play_chain env d chain (emit (driver_log d) s)")
    case (Pair r1 s1)
    with o assms(2) show ?thesis
      by (cases r1)
         (auto simp: main_play_def driver_log_def calm_def emit_def disposition_after_append
            calls_installed_append)
  qed
qed

lemma device_emit:
  "playback_event e \<Longrightarrow> uses_handle d e \<Longrightarrow> device_is n s \<Longrightarrow> device_is n (emit e s)"
  by (simp add: device_is_def emit_def)

lemma device_sleep:
  "device_is n s \<Longrightarrow> outcome (device_is n) (device_is n) (sleep_ms env d ms s)"
  by (simp add: sleep_ms_eq device_is_def advance_fields)

lemma device_stdin: "device_is n s \<Longrightarrow> device_is n (s\<lparr>stdin_rest := r\<rparr>)"
  by (simp add: device_is_def)

lemma play_chain_device:
  "device_is n s \<Longrightarrow> outcome (device_is n) (device_is n) (play_chain env d chain s)"
  by (rule play_chain_outcome [where I = "device_is n" and Q = "device_is n"])
     (simp_all add: device_emit device_sleep device_stdin)

lemma main_play_device:
  "param_device_name (snd (main_play env d chain s)) = param_device_name s"
proof -
  have "device_is (param_device_name s) (emit (driver_log d) s)"
    by (simp add: device_is_def emit_def)
  then have o: "outcome (device_is (param_device_name s)) (device_is (param_device_name s))
                  (play_chain env d chain (emit (driver_log d) s))"
    by (rule play_chain_device)
  show ?thesis
  proof (cases "play_chain env d chain (emit (driver_log d) s)")
    case (Pair r s1)
    with o show ?thesis
      by (cases r) (auto simp: main_play_def driver_log_def device_is_def emit_def)
  qed
qed

lemma startup_handles: "startup s s' \<Longrightarrow> handles_are d s \<Longrightarrow> handles_are d s'"
proof -
  have "list_all startup_event es \<Longrightarrow> list_all (uses_handle d) es" for es :: "'a event list"
  proof (induction es)
    case Nil
    show ?case by simp
  next
    case (Cons e es)
    then show ?case by (cases e) simp_all
  qed
  then show "startup s s' \<Longrightarrow> handles_are d s \<Longrightarrow> handles_are d s'"
    by (auto simp: startup_def handles_are_def)
qed

lemma main_outcome:
  assumes "main env argv (initial_world input level) = (r, s')"
  shows "(nsleeps s' = 0 \<and> calm s') \<or>
         (\<exists>d. beep_drivers_detect env (param_device_name s') = Some d
            \<and> handles_are d s'
            \<and> ((r = Inl EXIT_FAILURE \<and> torn env d s' \<and> stopped d s') \<or>
               (r = Inr EXIT_SUCCESS \<and> (\<forall>k<nsleeps s'. \<not> interrupted env k) \<and> calm s')))"
proof -
  let ?s0 = "initial_world input level :: 'a world"
  have l0: "live env ?s0" by (simp add: live_def initial_world_def)
  have c0: "calm ?s0" by (simp add: calm_def initial_world_def)
  from main_cases [OF assms] show ?thesis
  proof
    assume "\<exists>c. r = Inl c \<and> left ?s0 c s'"
    then obtain c where l: "left ?s0 c s'" by blast
    then have "nsleeps s' = 0"
      by (auto simp: left_def startup_def emit_def initial_world_def)
    with left_calm [OF l c0] show ?thesis by simp
  next
    assume "\<exists>chain s2 driver.
            parse_command_line env argv default_parms (emit Log_init ?s0) = (Inr chain, s2)
            \<and> startup ?s0 s2
            \<and> beep_drivers_detect env (param_device_name s2) = Some driver
            \<and> main_play env driver chain
                 (advance [Register ''console_driver'', Register ''evdev_driver'',
                           Detect (param_device_name s2)] 0 s2) = (r, s')"
    then obtain chain s2 d where s2: "startup ?s0 s2"
      and d: "beep_drivers_detect env (param_device_name s2) = Some d"
      and mp: "main_play env d chain (opened s2) = (r, s')"
      by (auto simp: opened_def)
    have "live env s2" using startup_live [OF s2 l0] .
    then have lo: "live env (opened s2)" by (simp add: live_def opened_def advance_fields)
    have "calm s2" using startup_calm [OF s2 c0] .
    then have co: "calm (opened s2)"
      by (simp add: calm_def opened_def advance_fields disposition_after_append
            calls_installed_append)
    have "handles_are d ?s0" by (simp add: handles_are_def initial_world_def)
    then have "handles_are d s2" using startup_handles [OF s2] by simp
    then have "handles_are d (opened s2)"
      by (simp add: handles_are_def opened_def advance_fields)
    then have h: "handles_are d s'"
      using main_play_handles [of d "opened s2" env chain] mp by simp
    have "param_device_name s' = param_device_name s2"
      using main_play_device [of env d chain "opened s2"] mp
      by (simp add: opened_def advance_fields)
    with d have d': "beep_drivers_detect env (param_device_name s') = Some d" by simp
    from main_play_live [OF lo mp] main_play_calm [OF co mp] d' h show ?thesis
      by (auto simp: EXIT_SUCCESS_def EXIT_FAILURE_def)
  qed
qed

lemma lifecycle_sleep_torn:
  "lifecycle_is es s \<Longrightarrow>
   outcome (lifecycle_is es) (lifecycle_is (es @ [Fini d, Exit EXIT_FAILURE]))
     (sleep_ms env d ms s)"
  by (simp add: sleep_ms_eq lifecycle_is_def advance_fields sleep_done_def sleep_torn_def
        sleep_call_def)

lemma play_chain_lifecycle_torn:
  "lifecycle_is es s \<Longrightarrow>
   outcome (lifecycle_is es) (lifecycle_is (es @ [Fini d, Exit EXIT_FAILURE]))
     (play_chain env d chain s)"
  by (rule play_chain_outcome
        [where I = "lifecycle_is es" and Q = "lifecycle_is (es @ [Fini d, Exit EXIT_FAILURE])"])
     (simp_all add: lifecycle_emit lifecycle_sleep_torn lifecycle_stdin)

lemma main_play_lifecycle_torn:
  assumes "main_play env d chain s = (Inl c, s')"
  shows "filter is_lifecycle (trace s') =
           filter is_lifecycle (trace s) @ [Fini d, Exit EXIT_FAILURE]"
proof -
  let ?es = "filter is_lifecycle (trace s)"
  have "lifecycle_is ?es (emit (driver_log d) s)"
    by (simp add: lifecycle_is_def emit_def driver_log_def)
  then have o: "outcome (lifecycle_is ?es) (lifecycle_is (?es @ [Fini d, Exit EXIT_FAILURE]))
                  (play_chain env d chain (emit (driver_log d) s))"
    by (rule play_chain_lifecycle_torn)
  show ?thesis
  proof (cases "play_chain env d chain (emit (driver_log d) s)")
    case (Pair r s1)
    with o assms show ?thesis
      by (cases r) (auto simp: main_play_def driver_log_def lifecycle_is_def)
  qed
qed

lemma main_lifecycle_torn:
  assumes "main env argv (initial_world input level) = (Inl c, s')" and "0 < nsleeps s'"
  shows "\<exists>d. beep_drivers_detect env (param_device_name s') = Some d
           \<and> filter is_lifecycle (trace s') =
               [Detect (param_device_name s'), Fini d, Exit EXIT_FAILURE]"
proof -
  let ?s0 = "initial_world input level :: 'a world"
  from main_cases [OF assms(1)] show ?thesis
  proof
    assume "\<exists>c'. Inl c = Inl c' \<and> left ?s0 c' s'"
    then have "nsleeps s' = 0"
      by (auto simp: left_def startup_def emit_def initial_world_def)
    with assms(2) show ?thesis by simp
  next
    assume "\<exists>chain s2 driver.
            parse_command_line env argv default_parms (emit Log_init ?s0) = (Inr chain, s2)
            \<and> startup ?s0 s2
            \<and> beep_drivers_detect env (param_device_name s2) = Some driver
            \<and> main_play env driver chain
                 (advance [Register ''console_driver'', Register ''evdev_driver'',
                           Detect (param_device_name s2)] 0 s2) = (Inl c, s')"
    then obtain chain s2 d
      where p: "parse_command_line env argv default_parms (emit Log_init ?s0) = (Inr chain, s2)"
        and d: "beep_drivers_detect env (param_device_name s2) = Some d"
        and mp: "main_play env d chain (opened s2) = (Inl c, s')"
      by (auto simp: opened_def)
    have "filter is_lifecycle (trace s2) = filter is_lifecycle (trace (emit Log_init ?s0))"
      using parse_command_line_quiet [OF p] by (rule lifecycle_quiet)
    then have l2: "filter is_lifecycle (trace s2) = []"
      by (simp add: emit_def initial_world_def)
    have n: "param_device_name s' = param_device_name s2"
      using main_play_device [of env d chain "opened s2"] mp
      by (simp add: opened_def advance_fields)
    from main_play_lifecycle_torn [OF mp] l2 d n show ?thesis
      by (simp add: opened_def advance_fields)
  qed
qed




















section \<open>The claims\<close>

text \<open>
  Claim C1. If a termination signal interrupts any sleep of the playback (the \<open>k\<close>-th call of
  \<open>nanosleep\<close> of the run returns \<open>-1\<close> with \<open>errno = EINTR\<close>, and the run gets as far as
  that call), then the run of \<open>main\<close> ends in \<open>exit(EXIT_FAILURE)\<close>, that sleep is the last
  one of the run (no later repetition and no later request of the chain sleeps), and the
  trace ends with the three calls of the interrupted \<open>sleep_ms\<close> followed by exactly
  \<open>beep_drivers_end_tone\<close>, \<open>beep_drivers_fini\<close> and \<open>exit\<close>, in this order. The handle
  of these calls is the one that \<open>beep_drivers_detect\<close> returned for the device name of the
  run: the run has one detection, one close, on that handle, and one exit
  (\<open>is_lifecycle\<close>), and every driver call of the whole trace is made on that handle
  (\<open>uses_handle\<close>). Before the teardown the trace holds no call of \<open>beep_drivers_fini\<close> and
  no \<open>exit\<close>.
\<close>

theorem interrupted_sleep_tears_down:
  assumes "main env argv (initial_world input level) = (r, s')"
      and "k < nsleeps s'" and "interrupted env k"
  shows "r = Inl EXIT_FAILURE \<and> nsleeps s' = Suc k \<and>
         (\<exists>pre ms driver.
            beep_drivers_detect env (param_device_name s') = Some driver
            \<and> filter is_lifecycle (trace s') =
                [Detect (param_device_name s'), Fini driver, Exit EXIT_FAILURE]
            \<and> list_all (uses_handle driver) (trace s')
            \<and> trace s' = pre @ sleep_call ms @ [End_tone driver, Fini driver, Exit EXIT_FAILURE]
            \<and> filter is_end pre = [])"
proof -
  have pos: "0 < nsleeps s'" using assms(2) by simp
  from main_outcome [OF assms(1)] pos obtain d
    where d: "beep_drivers_detect env (param_device_name s') = Some d"
      and h: "handles_are d s'"
      and c: "(r = Inl EXIT_FAILURE \<and> torn env d s' \<and> stopped d s') \<or>
              (r = Inr EXIT_SUCCESS \<and> (\<forall>k<nsleeps s'. \<not> interrupted env k) \<and> calm s')"
    by auto
  from c assms(2,3) have r: "r = Inl EXIT_FAILURE" and t: "torn env d s'" by blast+
  from t obtain k' pre ms where n: "nsleeps s' = Suc k'"
    and f: "\<forall>j<k'. \<not> interrupted env j"
    and tr: "trace s' = pre @ sleep_torn d ms" and p: "filter is_end pre = []"
    by (auto simp: torn_def)
  have k: "k = k'" using assms(2,3) n f by (metis less_Suc_eq)
  from main_lifecycle_torn [of env argv input level EXIT_FAILURE s'] assms(1) r pos d
  have l: "filter is_lifecycle (trace s') =
             [Detect (param_device_name s'), Fini d, Exit EXIT_FAILURE]"
    by simp
  from r n k d l h tr p show ?thesis
    by (auto simp: sleep_torn_def handles_are_def)
qed

theorem interrupted_sleep_tears_down_witness:
  "2 < nsleeps (snd (main (example_env (interrupted_at 2) [(CHR ''r'', ''2'')] (Some ''evdev''))
                      [''beep'', ''-r'', ''2''] (initial_world '''' 0)))
   \<and> interrupted (example_env (interrupted_at 2) [(CHR ''r'', ''2'')] (Some ''evdev'')) 2
   \<and> fst (main (example_env (interrupted_at 2) [(CHR ''r'', ''2'')] (Some ''evdev''))
            [''beep'', ''-r'', ''2''] (initial_world '''' 0)) = Inl EXIT_FAILURE
   \<and> nsleeps (snd (main (example_env (interrupted_at 2) [(CHR ''r'', ''2'')] (Some ''evdev''))
                      [''beep'', ''-r'', ''2''] (initial_world '''' 0))) = 3
   \<and> filter is_lifecycle
       (trace (snd (main (example_env (interrupted_at 2) [(CHR ''r'', ''2'')] (Some ''evdev''))
                      [''beep'', ''-r'', ''2''] (initial_world '''' 0)))) =
      [Detect None, Fini ''evdev'', Exit EXIT_FAILURE]"
proof -
  let ?E = "example_env (interrupted_at 2) [(CHR ''r'', ''2'')] (Some ''evdev'')"
  let ?m = "main ?E [''beep'', ''-r'', ''2''] (initial_world '''' 0)"
  have run: "?m = (fst ?m, snd ?m)" by simp
  have k: "2 < nsleeps (snd ?m)" by (simp add: example_defs)
  have i: "interrupted ?E 2" by (simp add: example_defs)
  have d: "beep_drivers_detect ?E = (\<lambda>path. Some ''evdev'')" by (simp add: example_env_def)
  have n: "param_device_name (snd ?m) = None" by (simp add: example_defs)
  from interrupted_sleep_tears_down [OF run k i] k i show ?thesis by (simp add: d n)
qed

text \<open>
  Claim C2. A call of \<open>play_beep\<close> that returns has made exactly \<open>reps\<close> calls of
  \<open>beep_drivers_begin_tone\<close> and \<open>reps\<close> calls of \<open>beep_drivers_end_tone\<close>, strictly
  alternating and starting with \<open>begin_tone\<close>: its tone calls are \<open>reps\<close> copies of the pair
  (begin, end). The call does return when no sleep is interrupted. With \<open>reps = 0\<close> the call
  does nothing but its log line. The device is opened and closed whatever the repetition
  counts are: every run of \<open>main\<close> that returns has called \<open>beep_drivers_detect\<close> once and
  \<open>beep_drivers_fini\<close> once, on the handle that the detection gave. (The close in \<open>main\<close>
  is preceded by one \<open>beep_drivers_end_tone\<close> of \<open>main\<close> itself, line 464, which is not a
  call of \<open>play_beep\<close>.)
\<close>

theorem play_beep_tone_calls:
  "(play_beep env driver parms s = (Inr u, s') \<longrightarrow>
      filter is_tone (trace s') =
        filter is_tone (trace s) @
        concat (replicate (unat (reps parms))
                  [Begin_tone driver (freq parms AND 0xffff), End_tone driver]))
   \<and> ((\<forall>k. \<not> interrupted env k) \<longrightarrow> fst (play_beep env driver parms s) = Inr ())
   \<and> (reps parms = 0 \<longrightarrow> play_beep env driver parms s = (Inr (), emit (play_log parms) s))
   \<and> (main env argv (initial_world input level) = (Inr v, w) \<longrightarrow>
        (\<exists>name d. beep_drivers_detect env name = Some d
           \<and> filter is_lifecycle (trace w) = [Detect name, Fini d]))"
  using play_beep_tones [of env driver parms s u s'] play_beep_returns [of env driver parms s]
        play_beep_zero [of parms env driver s] main_lifecycle [of env argv input level v w]
  by blast

theorem play_beep_tone_calls_witness:
  "filter is_tone
     (trace (snd (play_beep (example_env never_interrupted [] (Some ''evdev'')) ''evdev''
                    example_parms (initial_world '''' 0)))) =
     [Begin_tone ''evdev'' 440, End_tone ''evdev'', Begin_tone ''evdev'' 440, End_tone ''evdev'']
   \<and> fst (play_beep (example_env never_interrupted [] (Some ''evdev'')) ''evdev''
            example_parms (initial_world '''' 0)) = Inr ()
   \<and> play_beep (example_env never_interrupted [] (Some ''evdev'')) ''evdev''
        (example_parms\<lparr>reps := 0\<rparr>) (initial_world '''' 0) =
      (Inr (), emit (play_log (example_parms\<lparr>reps := 0\<rparr>)) (initial_world '''' 0))
   \<and> filter is_lifecycle
        (trace (snd (main (example_env never_interrupted [(CHR ''r'', ''0'')] (Some ''evdev''))
                       [''beep'', ''-r'', ''0''] (initial_world '''' 0)))) =
      [Detect None, Fini ''evdev'']"
proof -
  let ?E = "example_env never_interrupted [] (Some ''evdev'')"
  let ?p = "play_beep ?E ''evdev'' example_parms (initial_world '''' 0)"
  let ?F = "example_env never_interrupted [(CHR ''r'', ''0'')] (Some ''evdev'')"
  let ?m = "main ?F [''beep'', ''-r'', ''0''] (initial_world '''' 0)"
  have r: "?p = (Inr (), snd ?p)" by (simp add: example_defs)
  have n: "\<forall>k. \<not> interrupted ?E k" by (simp add: example_defs)
  have z: "reps (example_parms\<lparr>reps := 0\<rparr>) = 0" by simp
  have m: "?m = (Inr 0, snd ?m)" by (simp add: example_defs)
  have t: "filter is_tone (trace (snd ?p)) =
             filter is_tone (trace (initial_world '''' 0 :: string world)) @
             concat (replicate (unat (reps example_parms))
                  [Begin_tone ''evdev'' (freq example_parms AND 0xffff), End_tone ''evdev''])"
    using play_beep_tone_calls [of ?E "''evdev''" example_parms "initial_world '''' 0" "()" "snd ?p"] r
    by blast
  have l: "filter is_lifecycle (trace (snd ?m)) = [Detect None, Fini ''evdev'']"
    by (simp add: example_defs)
  show ?thesis
    using t n z l
          play_beep_tone_calls [of ?E "''evdev''" example_parms "initial_world '''' 0"]
          play_beep_tone_calls [of ?E "''evdev''" "example_parms\<lparr>reps := 0\<rparr>" "initial_world '''' 0"]
    by (simp add: example_parms_def initial_world_def replicate_2)
qed

text \<open>
  Claim C3. The tone calls and sleeps of a call of \<open>play_beep\<close> that returns are \<open>reps\<close>
  blocks of begin tone, sleep of the tone length, end tone, sleep of the delay; when the
  end-delay flag is \<open>END_DELAY_NO\<close> the last sleep of the last block is left out
  (\<open>expected_phases\<close>). So the delay sleep (a sleep that directly follows an end of tone)
  happens \<open>reps\<close> times with the flag and \<open>reps - 1\<close> times without it, and never after the
  last repetition unless the flag is set.
\<close>

theorem play_beep_delay_sleeps:
  assumes "play_beep env driver parms s = (Inr u, s')"
  shows "filter is_phase (trace s') =
           filter is_phase (trace s) @ expected_phases driver parms (unat (reps parms))
         \<and> delay_sleeps (expected_phases driver parms (unat (reps parms))) =
             (if end_delay parms = END_DELAY_YES then unat (reps parms)
              else unat (reps parms) - 1)"
  by (simp add: play_beep_phases [OF assms] delay_sleeps_expected)

theorem play_beep_delay_sleeps_witness:
  "filter is_phase
     (trace (snd (play_beep (example_env never_interrupted [] (Some ''evdev'')) ''evdev''
                    example_parms (initial_world '''' 0)))) =
     [Begin_tone ''evdev'' 440, Nanosleep 1 200000000, End_tone ''evdev'',
      Nanosleep 0 100000000,
      Begin_tone ''evdev'' 440, Nanosleep 1 200000000, End_tone ''evdev'']
   \<and> delay_sleeps (expected_phases ''evdev'' example_parms 2) = 1"
proof -
  let ?E = "example_env never_interrupted [] (Some ''evdev'')"
  let ?p = "play_beep ?E ''evdev'' example_parms (initial_world '''' 0)"
  have r: "?p = (Inr (), snd ?p)" by (simp add: example_defs)
  have e: "expected_phases ''evdev'' example_parms 2 =
             [Begin_tone ''evdev'' 440, Nanosleep 1 200000000, End_tone ''evdev'',
              Nanosleep 0 100000000,
              Begin_tone ''evdev'' 440, Nanosleep 1 200000000, End_tone ''evdev'']"
    by (simp add: expected_phases_def rep_block_def nanosleep_of_def example_parms_def
          replicate_2)
  show ?thesis
    using play_beep_delay_sleeps [OF r] e
    by (simp add: example_parms_def initial_world_def)
qed




text \<open>
  Claim C5, as amended. As stated the claim fails: when \<open>nanosleep\<close> is interrupted,
  \<open>sleep_ms\<close> does not restore the dispositions. It stops the tone, closes the handle and
  calls \<open>exit\<close> (lines 300 to 304) while \<open>handle_signal\<close> is still installed for both
  signals. The third theorem below runs \<open>beep\<close> with its first sleep interrupted: the calls
  made under \<open>handle_signal\<close> are \<open>beep_drivers_end_tone\<close>, \<open>beep_drivers_fini\<close> and
  \<open>exit\<close>.

  What holds: every call of \<open>sleep_ms\<close> installs \<open>handle_signal\<close> for \<open>SIGINT\<close> and for
  \<open>SIGTERM\<close>, calls \<open>nanosleep\<close>, and then restores \<open>SIG_DFL\<close> for both signals if
  \<open>nanosleep\<close> was not interrupted, and makes the three calls of the teardown if it was;
  these are all its calls. The automaton \<open>sig_next\<close> reads the trace of a run call by call.
  In the phase \<open>Default\<close> it accepts any call but \<open>nanosleep\<close> and \<open>signal\<close>, except the
  \<open>signal(SIGINT, handle_signal)\<close> that starts a sleep. From there it accepts only
  \<open>signal(SIGTERM, handle_signal)\<close>, then \<open>nanosleep\<close>, and then either the two calls that
  restore \<open>SIG_DFL\<close>, which lead back to \<open>Default\<close>, or the teardown of an interrupted sleep
  (end tone, fini, exit), which ends the run. Every run of \<open>main\<close> is accepted. In a run
  without an interrupted sleep, no call other than \<open>signal\<close> and \<open>nanosleep\<close> is made while
  \<open>handle_signal\<close> is installed (\<open>calls_installed\<close>): detection, tone calls, output and
  flushing are made with the default dispositions, which also hold at the end of the run. In
  a run with an interrupted sleep, the only such calls are the three of the teardown, made on
  the handle that the detection returned.
\<close>

theorem signal_handlers_scoped_to_sleep:
  "sleep_ms env driver ms s =
     (if interrupted env (nsleeps s)
      then (Inl EXIT_FAILURE,
            advance [Signal SIGINT handle_signal, Signal SIGTERM handle_signal, nanosleep_of ms,
                     End_tone driver, Fini driver, Exit EXIT_FAILURE] 1 s)
      else (Inr (fst (nanosleep_result env (nsleeps s))),
            advance [Signal SIGINT handle_signal, Signal SIGTERM handle_signal, nanosleep_of ms,
                     Signal SIGINT SIG_DFL, Signal SIGTERM SIG_DFL] 1 s))
   \<and> sig_run Default (trace (snd (main env argv (initial_world input level)))) =
       Some (case fst (main env argv (initial_world input level)) of
               Inl c \<Rightarrow> Exited | Inr v \<Rightarrow> Default)
   \<and> (if \<exists>k<nsleeps (snd (main env argv (initial_world input level))). interrupted env k
      then \<exists>d. beep_drivers_detect env
                  (param_device_name (snd (main env argv (initial_world input level)))) = Some d
               \<and> calls_installed (SIG_DFL, SIG_DFL)
                   (trace (snd (main env argv (initial_world input level)))) =
                  [End_tone d, Fini d, Exit EXIT_FAILURE]
      else calls_installed (SIG_DFL, SIG_DFL)
             (trace (snd (main env argv (initial_world input level)))) = []
           \<and> disposition_after (SIG_DFL, SIG_DFL)
               (trace (snd (main env argv (initial_world input level)))) = (SIG_DFL, SIG_DFL))"
proof (intro conjI)
  show "sleep_ms env driver ms s =
     (if interrupted env (nsleeps s)
      then (Inl EXIT_FAILURE,
            advance [Signal SIGINT handle_signal, Signal SIGTERM handle_signal, nanosleep_of ms,
                     End_tone driver, Fini driver, Exit EXIT_FAILURE] 1 s)
      else (Inr (fst (nanosleep_result env (nsleeps s))),
            advance [Signal SIGINT handle_signal, Signal SIGTERM handle_signal, nanosleep_of ms,
                     Signal SIGINT SIG_DFL, Signal SIGTERM SIG_DFL] 1 s))"
    by (simp add: sleep_ms_eq sleep_torn_def sleep_done_def sleep_call_def nanosleep_of_def)
  show "sig_run Default (trace (snd (main env argv (initial_world input level)))) =
       Some (case fst (main env argv (initial_world input level)) of
               Inl c \<Rightarrow> Exited | Inr v \<Rightarrow> Default)"
    by (rule main_sig)
  let ?w = "snd (main env argv (initial_world input level))"
  obtain r where m: "main env argv (initial_world input level) = (r, ?w)"
    by (cases "main env argv (initial_world input level)") simp
  show "if \<exists>k<nsleeps ?w. interrupted env k
        then \<exists>d. beep_drivers_detect env (param_device_name ?w) = Some d
               \<and> calls_installed (SIG_DFL, SIG_DFL) (trace ?w) =
                  [End_tone d, Fini d, Exit EXIT_FAILURE]
        else calls_installed (SIG_DFL, SIG_DFL) (trace ?w) = []
           \<and> disposition_after (SIG_DFL, SIG_DFL) (trace ?w) = (SIG_DFL, SIG_DFL)"
    using main_outcome [OF m]
    by (auto simp: calm_def stopped_def torn_def)
qed

theorem signal_handlers_scoped_to_sleep_witness:
  "sig_run Default
     (trace (snd (main (example_env (interrupted_at 2) [(CHR ''r'', ''2'')] (Some ''evdev''))
                    [''beep'', ''-r'', ''2''] (initial_world '''' 0)))) = Some Exited
   \<and> calls_installed (SIG_DFL, SIG_DFL)
     (trace (snd (main (example_env (interrupted_at 2) [(CHR ''r'', ''2'')] (Some ''evdev''))
                    [''beep'', ''-r'', ''2''] (initial_world '''' 0)))) =
       [End_tone ''evdev'', Fini ''evdev'', Exit EXIT_FAILURE]
   \<and> sig_run Default
     (trace (snd (main (example_env never_interrupted [(CHR ''D'', ''50'')] (Some ''evdev''))
                    [''beep'', ''-D'', ''50''] (initial_world '''' 0)))) = Some Default
   \<and> calls_installed (SIG_DFL, SIG_DFL)
     (trace (snd (main (example_env never_interrupted [(CHR ''D'', ''50'')] (Some ''evdev''))
                    [''beep'', ''-D'', ''50''] (initial_world '''' 0)))) = []"
proof -
  let ?E = "example_env (interrupted_at 2) [(CHR ''r'', ''2'')] (Some ''evdev'')"
  let ?F = "example_env never_interrupted [(CHR ''D'', ''50'')] (Some ''evdev'')"
  let ?m = "main ?E [''beep'', ''-r'', ''2''] (initial_world '''' 0)"
  let ?n = "main ?F [''beep'', ''-D'', ''50''] (initial_world '''' 0)"
  have a: "fst ?m = Inl 1" by (simp add: example_defs)
  have b: "fst ?n = Inr 0" by (simp add: example_defs)
  have k: "2 < nsleeps (snd ?m)" by (simp add: example_defs)
  have i: "interrupted ?E 2" by (simp add: example_defs)
  have x: "\<exists>k<nsleeps (snd ?m). interrupted ?E k" using k i by blast
  have y: "\<not> (\<exists>k<nsleeps (snd ?n). interrupted ?F k)" by (simp add: example_defs)
  have d: "beep_drivers_detect ?E = (\<lambda>path. Some ''evdev'')" by (simp add: example_env_def)
  show ?thesis
    using signal_handlers_scoped_to_sleep [of ?E _ _ _ "[''beep'', ''-r'', ''2'']" "''''" 0]
          signal_handlers_scoped_to_sleep [of ?F _ _ _ "[''beep'', ''-D'', ''50'']" "''''" 0]
    by (simp only: a b x y if_True if_False d) auto
qed

theorem teardown_under_installed_handlers_counterexample:
  "fst (main (example_env (interrupted_at 0) [] (Some ''evdev'')) [''beep''] (initial_world '''' 0))
     = Inl EXIT_FAILURE
   \<and> calls_installed (SIG_DFL, SIG_DFL)
       (trace (snd (main (example_env (interrupted_at 0) [] (Some ''evdev'')) [''beep'']
                      (initial_world '''' 0)))) =
     [End_tone ''evdev'', Fini ''evdev'', Exit EXIT_FAILURE]
   \<and> disposition_after (SIG_DFL, SIG_DFL)
       (trace (snd (main (example_env (interrupted_at 0) [] (Some ''evdev'')) [''beep'']
                      (initial_world '''' 0)))) =
     (handle_signal, handle_signal)"
  by (simp add: example_defs)




text \<open>
  Claim C7. The loop over standard input reads with \<open>fgets\<close> into a buffer of 4096 bytes and
  treats each buffer as a C string. Three runs of the loop of lines 426 to 462 on a request
  in a stdin mode follow, each shown by its calls that read, echo and play.

  On the four input bytes \<open>a\<close>, \<open>NUL\<close>, \<open>b\<close>, newline, which one \<open>fgets\<close> reads, the
  per-character mode echoes \<open>a\<close> and plays once, and the per-line mode echoes only \<open>a\<close>
  before it plays: the bytes from the \<open>NUL\<close> on are neither echoed nor played. On a line of
  4096 characters the per-line mode plays twice, once for the first 4095 characters and once
  for the rest of the line. The comments of the source (lines 95 to 101 and 146 to 147)
  promise a beep after each line or character of input, with the text passed back out.
  The two calls of \<open>setvbuf\<close> come first, and the input is read until \<open>fgets\<close> returns
  \<open>NULL\<close>.
\<close>

theorem stdin_units_not_all_echoed_and_played:
  "filter is_stdin_call
     (trace (snd (play_chain (example_env never_interrupted [] (Some ''evdev'')) ''evdev''
                    [default_parms\<lparr>freq := 440, stdin_beep := STDIN_BEEP_CHAR\<rparr>]
                    (initial_world [CHR ''a'', CHR 0x00, CHR ''b'', CHR 0x0A] 0)))) =
     [Setvbuf_stdin_IONBF, Setvbuf_stdout_IONBF,
      Fgets (Some [CHR ''a'', CHR 0x00, CHR ''b'', CHR 0x0A, CHR 0x00]),
      Putchar (CHR ''a''),
      play_log (default_parms\<lparr>freq := 440, stdin_beep := STDIN_BEEP_CHAR\<rparr>),
      Fgets None]
   \<and> filter is_stdin_call
     (trace (snd (play_chain (example_env never_interrupted [] (Some ''evdev'')) ''evdev''
                    [default_parms\<lparr>freq := 440, stdin_beep := STDIN_BEEP_LINE\<rparr>]
                    (initial_world [CHR ''a'', CHR 0x00, CHR ''b'', CHR 0x0A] 0)))) =
     [Setvbuf_stdin_IONBF, Setvbuf_stdout_IONBF,
      Fgets (Some [CHR ''a'', CHR 0x00, CHR ''b'', CHR 0x0A, CHR 0x00]),
      Fputs_stdout ''a'',
      play_log (default_parms\<lparr>freq := 440, stdin_beep := STDIN_BEEP_LINE\<rparr>),
      Fgets None]
   \<and> filter is_stdin_call
     (trace (snd (play_chain (example_env never_interrupted [] (Some ''evdev'')) ''evdev''
                    [default_parms\<lparr>freq := 440, stdin_beep := STDIN_BEEP_LINE\<rparr>]
                    (initial_world (replicate 4096 (CHR ''x'') @ [CHR 0x0A]) 0)))) =
     [Setvbuf_stdin_IONBF, Setvbuf_stdout_IONBF,
      Fgets (Some (replicate 4095 (CHR ''x'') @ [CHR 0x00])),
      Fputs_stdout (replicate 4095 (CHR ''x'')),
      play_log (default_parms\<lparr>freq := 440, stdin_beep := STDIN_BEEP_LINE\<rparr>),
      Fgets (Some [CHR ''x'', CHR 0x0A, CHR 0x00]),
      Fputs_stdout [CHR ''x'', CHR 0x0A],
      play_log (default_parms\<lparr>freq := 440, stdin_beep := STDIN_BEEP_LINE\<rparr>),
      Fgets None]"
  using stdin_mode_stops_at_nul line_mode_plays_long_line_twice by (intro conjI) simp_all

text \<open>
  Claim C8. When the checks at the start of \<open>main\<close> pass, the command line is parsed and
  \<open>beep_drivers_detect\<close> returns \<open>NULL\<close>, the run ends with \<open>exit(EXIT_FAILURE)\<close>. If no
  device was named, it logs \<open>Could not open any device\<close> and then writes one bell character
  to standard output exactly when standard output is a terminal. If a device was named, it
  logs the message that names the device and the error, and writes no bell. The bell is the
  only \<open>fputc\<close> of the whole run.
\<close>

theorem no_device_exits_with_bell_on_tty:
  assumes "passes_checks env"
      and "parse_command_line env argv default_parms (emit Log_init (initial_world input level))
             = (Inr chain, s2)"
      and "beep_drivers_detect env (param_device_name s2) = None"
  shows "main env argv (initial_world input level) =
           (Inl EXIT_FAILURE,
            advance
              ((case param_device_name s2 of
                  None \<Rightarrow> Log_error ''Could not open any device'' []
                            # (if isatty_stdout env then [Fputc_stdout BEL] else [])
                | Some name \<Rightarrow> [Log_error ''Could not open %s for writing: %s''
                                   [AS name, AS (strerror_errno env)]])
               @ [Exit EXIT_FAILURE]) 0 (opened s2))
         \<and> filter is_fputc (trace (snd (main env argv (initial_world input level)))) =
             (if param_device_name s2 = None \<and> isatty_stdout env then [Fputc_stdout BEL]
              else [])"
proof -
  have "filter is_fputc (trace s2) = filter is_fputc (trace (emit Log_init (initial_world input level)))"
  proof (rule filter_quiet [OF parse_command_line_quiet [OF assms(2)]])
    show "not_warning e" if "is_fputc e" for e :: "'a event"
      using that by (cases e) (simp_all add: not_warning_def)
  qed
  then have q: "filter is_fputc (trace s2) = []"
    by (simp add: emit_def initial_world_def)
  show ?thesis
    using main_no_device [OF assms] q
    by (cases "param_device_name s2") (simp_all add: advance_fields opened_def)
qed

theorem no_device_exits_with_bell_on_tty_witness:
  "main (example_env never_interrupted [] None) [''beep''] (initial_world '''' 0) =
     (Inl 1,
      \<lparr>trace = [Log_init, Register ''console_driver'', Register ''evdev_driver'', Detect None,
                Log_error ''Could not open any device'' [], Fputc_stdout (CHR 0x07), Exit 1],
       nsleeps = 0, stdin_rest = '''', log_level = 0, param_device_name = None\<rparr>)
   \<and> main ((example_env never_interrupted [] None)\<lparr>isatty_stdout := False\<rparr>) [''beep'']
       (initial_world '''' 0) =
     (Inl 1,
      \<lparr>trace = [Log_init, Register ''console_driver'', Register ''evdev_driver'', Detect None,
                Log_error ''Could not open any device'' [], Exit 1],
       nsleeps = 0, stdin_rest = '''', log_level = 0, param_device_name = None\<rparr>)
   \<and> main (example_env never_interrupted [(CHR ''e'', ''/dev/null'')] None)
       [''beep'', ''-e'', ''/dev/null''] (initial_world '''' 0) =
     (Inl 1,
      \<lparr>trace = [Log_init, Register ''console_driver'', Register ''evdev_driver'',
                Detect (Some ''/dev/null''),
                Log_error ''Could not open %s for writing: %s''
                  [AS ''/dev/null'', AS ''Permission denied''], Exit 1],
       nsleeps = 0, stdin_rest = '''', log_level = 0,
       param_device_name = Some ''/dev/null''\<rparr>)"
proof -
  let ?E = "example_env never_interrupted [] None"
  let ?F = "(example_env never_interrupted [] None)\<lparr>isatty_stdout := False\<rparr>"
  let ?G = "example_env never_interrupted [(CHR ''e'', ''/dev/null'')] None"
  let ?s1 = "emit Log_init (initial_world '''' 0) :: string world"
  have e1: "passes_checks ?E" by (simp add: passes_checks_def example_env_def)
  have e2: "parse_command_line ?E [''beep''] default_parms ?s1 =
              (Inr [default_parms\<lparr>freq := 440\<rparr>], ?s1)"
    by (simp add: example_defs)
  have e3: "beep_drivers_detect ?E (param_device_name ?s1) = None"
    by (simp add: example_env_def)
  have f1: "passes_checks ?F" by (simp add: passes_checks_def example_env_def)
  have f2: "parse_command_line ?F [''beep''] default_parms ?s1 =
              (Inr [default_parms\<lparr>freq := 440\<rparr>], ?s1)"
    by (simp add: example_defs)
  have f3: "beep_drivers_detect ?F (param_device_name ?s1) = None"
    by (simp add: example_env_def)
  have g1: "passes_checks ?G" by (simp add: passes_checks_def example_env_def)
  have g2: "parse_command_line ?G [''beep'', ''-e'', ''/dev/null''] default_parms ?s1 =
              (Inr [default_parms\<lparr>freq := 440\<rparr>],
               ?s1\<lparr>param_device_name := Some ''/dev/null''\<rparr>)"
    by (simp add: example_defs)
  have g3: "beep_drivers_detect ?G
              (param_device_name (?s1\<lparr>param_device_name := Some ''/dev/null''\<rparr>)) = None"
    by (simp add: example_env_def)
  show ?thesis
    using no_device_exits_with_bell_on_tty [OF e1 e2 e3]
          no_device_exits_with_bell_on_tty [OF f1 f2 f3]
          no_device_exits_with_bell_on_tty [OF g1 g2 g3]
    by (simp add: opened_def advance_def emit_def initial_world_def example_env_def
          EXIT_FAILURE_def BEL_def)
qed

text \<open>
  Claim C9. When the real and effective user ids differ, or the real and effective group ids
  differ, or one of \<open>SUDO_COMMAND\<close>, \<open>SUDO_USER\<close>, \<open>SUDO_UID\<close>, \<open>SUDO_GID\<close> is set, the
  whole run of \<open>main\<close> is: \<open>log_init\<close>, two error messages, \<open>exit(EXIT_FAILURE)\<close>. No
  driver is registered, no device is opened and no tone is started.
\<close>

theorem privileged_run_exits_first:
  assumes "getuid env \<noteq> geteuid env \<or> getgid env \<noteq> getegid env
           \<or> getenv env ''SUDO_COMMAND'' \<noteq> None \<or> getenv env ''SUDO_USER'' \<noteq> None
           \<or> getenv env ''SUDO_UID'' \<noteq> None \<or> getenv env ''SUDO_GID'' \<noteq> None"
  shows "main env argv s0 =
           (Inl EXIT_FAILURE,
            advance [Log_init, Log_error (refusal env) [],
                     Log_error ''Set up permissions for the pcspkr evdev device file instead.'' [],
                     Exit EXIT_FAILURE] 0 s0)"
  using assms
  by (auto simp: main_def Let_def refusal_def exit_with_def emit_def advance_def)

theorem privileged_run_exits_first_witness:
  "getenv ((example_env never_interrupted [] (Some ''evdev''))
             \<lparr>getenv := map_of [(''SUDO_USER'', ''root'')]\<rparr>) ''SUDO_USER'' = Some ''root''
   \<and> main ((example_env never_interrupted [] (Some ''evdev''))
             \<lparr>getenv := map_of [(''SUDO_USER'', ''root'')]\<rparr>) [''beep''] (initial_world '''' 0) =
       (Inl 1,
        \<lparr>trace = [Log_init,
                  Log_error ''Running under sudo, which is not supported for security reasons.'' [],
                  Log_error ''Set up permissions for the pcspkr evdev device file instead.'' [],
                  Exit 1],
         nsleeps = 0, stdin_rest = '''', log_level = 0, param_device_name = None\<rparr>)"
proof -
  let ?E = "(example_env never_interrupted [] (Some ''evdev''))
             \<lparr>getenv := map_of [(''SUDO_USER'', ''root'')]\<rparr>"
  have h: "getenv ?E ''SUDO_USER'' \<noteq> None" by (simp add: example_env_def)
  show ?thesis
    using privileged_run_exits_first [of ?E "[''beep'']" "initial_world '''' 0"] h
    by (simp add: refusal_def example_env_def advance_def initial_world_def EXIT_FAILURE_def)
qed

text \<open>
  Claim C10, as amended. As stated the claim fails: the options test what \<open>sscanf\<close>
  stored, not the argument. \<open>sscanf\<close> with \<open>%u\<close> converts the digits at the start of the
  argument and leaves the rest unread, so \<open>beep -l 12abc\<close> opens the device, plays a tone of
  12 ms and returns 0; and \<open>-l 4294967297\<close> is taken as 1 where \<open>unsigned int\<close> has 32
  bits. The third theorem below runs both commands, with the conversion of the C library
  (\<open>libc_sscanf_u\<close>).

  What holds, for each of the options \<open>-l\<close>, \<open>-r\<close>, \<open>-d\<close> and \<open>-D\<close>: when \<open>sscanf\<close>
  converts nothing from the argument, or the value it stored is above 300000, the option
  prints the usage text and calls \<open>exit(EXIT_FAILURE)\<close>; any stored value up to 300000 is
  assigned to the field of the option and parsing goes on. In a run of \<open>main\<close> that reaches
  such a rejected option (the checks pass and the options before it are parsed), the trace
  without the warnings is \<open>log_init\<close>, the usage text, \<open>exit(EXIT_FAILURE)\<close>: no device is
  opened and no tone is played.
\<close>

theorem bounded_option_checked:
  assumes "ch = CHR ''l'' \<or> ch = CHR ''r'' \<or> ch = CHR ''d'' \<or> ch = CHR ''D''"
  shows "parse_option env (ch, optarg) (finished, result) s =
           (case sscanf_u env optarg of
              None \<Rightarrow> usage_exit env s
            | Some u \<Rightarrow>
                if 300000 < u then usage_exit env s
                else (Inr (finished, store_bounded ch u result), s))
         \<and> (passes_checks env
              \<and> fst (getopt_long_seq env argv) = pre @ (ch, optarg) # post
              \<and> parse_options env pre ([], default_parms)
                    (emit Log_init (initial_world input level)) = (Inr st, s1)
              \<and> rejected env optarg \<longrightarrow>
            main env argv (initial_world input level) = usage_exit env s1
            \<and> filter not_warning (trace (snd (main env argv (initial_world input level)))) =
                [Log_init, Fputs_stdout (beep_usage env), Exit EXIT_FAILURE])"
proof (intro conjI impI)
  show "parse_option env (ch, optarg) (finished, result) s =
           (case sscanf_u env optarg of
              None \<Rightarrow> usage_exit env s
            | Some u \<Rightarrow>
                if 300000 < u then usage_exit env s
                else (Inr (finished, store_bounded ch u result), s))"
    using parse_option_bounded [OF assms, of env optarg finished result s]
    by (simp add: rejected_def split: option.splits)
next
  assume a: "passes_checks env
              \<and> fst (getopt_long_seq env argv) = pre @ (ch, optarg) # post
              \<and> parse_options env pre ([], default_parms)
                    (emit Log_init (initial_world input level)) = (Inr st, s1)
              \<and> rejected env optarg"
  then have p: "parse_options env pre ([], default_parms)
                    (emit Log_init (initial_world input level)) = (Inr st, s1)"
    by simp
  have m: "main env argv (initial_world input level) = usage_exit env s1"
    using main_rejected [OF _ assms _ p] a by simp
  have "quiet (emit Log_init (initial_world input level)) s1"
    using parse_options_quiet [OF p] .
  then have n: "filter not_warning (trace s1) = [Log_init]"
    by (simp add: quiet_def emit_def initial_world_def not_warning_def)
  show "main env argv (initial_world input level) = usage_exit env s1" by (rule m)
  show "filter not_warning (trace (snd (main env argv (initial_world input level)))) =
             [Log_init, Fputs_stdout (beep_usage env), Exit EXIT_FAILURE]"
    using m n by (simp add: usage_exit_def advance_fields not_warning_def)
qed

theorem bounded_option_checked_witness:
  "parse_option (example_env never_interrupted [] (Some ''evdev'')) (CHR ''l'', ''300000'')
     ([], default_parms) (initial_world '''' 0) =
     (Inr ([], default_parms\<lparr>length_ms := 300000\<rparr>), initial_world '''' 0)
   \<and> rejected (example_env never_interrupted [] (Some ''evdev'')) ''300001''
   \<and> rejected (example_env never_interrupted [] (Some ''evdev'')) ''abc''
   \<and> main (example_env never_interrupted [(CHR ''D'', ''50''), (CHR ''r'', ''abc'')] (Some ''evdev''))
        [''beep'', ''-D'', ''50'', ''-r'', ''abc''] (initial_world '''' 0) =
      (Inl 1,
       \<lparr>trace = [Log_init, Fputs_stdout ''Usage: beep [options]'', Exit 1],
        nsleeps = 0, stdin_rest = '''', log_level = 0, param_device_name = None\<rparr>)"
proof -
  let ?E = "example_env never_interrupted [] (Some ''evdev'')"
  let ?F = "example_env never_interrupted [(CHR ''D'', ''50''), (CHR ''r'', ''abc'')] (Some ''evdev'')"
  let ?s1 = "emit Log_init (initial_world '''' 0) :: string world"
  have c: "CHR ''l'' = CHR ''l'' \<or> CHR ''l'' = CHR ''r'' \<or> CHR ''l'' = CHR ''d'' \<or> CHR ''l'' = CHR ''D''"
    by simp
  have c2: "CHR ''r'' = CHR ''l'' \<or> CHR ''r'' = CHR ''r'' \<or> CHR ''r'' = CHR ''d'' \<or> CHR ''r'' = CHR ''D''"
    by simp
  have r1: "rejected ?E ''300001''" by (simp add: rejected_def example_env_def)
  have r2: "rejected ?E ''abc''" by (simp add: rejected_def example_env_def)
  have r3: "rejected ?F ''abc''" by (simp add: rejected_def example_env_def)
  have h1: "passes_checks ?F" by (simp add: passes_checks_def example_env_def)
  have h2: "fst (getopt_long_seq ?F [''beep'', ''-D'', ''50'', ''-r'', ''abc'']) =
              [(CHR ''D'', ''50'')] @ (CHR ''r'', ''abc'') # []"
    by (simp add: example_env_def)
  have h3: "parse_options ?F [(CHR ''D'', ''50'')] ([], default_parms) ?s1 =
              (Inr ([], default_parms\<lparr>delay := 50, end_delay := END_DELAY_YES\<rparr>), ?s1)"
    by (simp add: example_defs)
  have a: "parse_option ?E (CHR ''l'', ''300000'') ([], default_parms) (initial_world '''' 0) =
             (Inr ([], default_parms\<lparr>length_ms := 300000\<rparr>), initial_world '''' 0)"
    using bounded_option_checked [OF c, where env = ?E and optarg = "''300000''"
            and finished = "[]" and result = default_parms and s = "initial_world '''' 0"]
    by (simp add: example_env_def store_bounded_def)
  have b: "main ?F [''beep'', ''-D'', ''50'', ''-r'', ''abc''] (initial_world '''' 0) =
             usage_exit ?F ?s1"
    using bounded_option_checked [OF c2, where env = ?F and optarg = "''abc''"
            and argv = "[''beep'', ''-D'', ''50'', ''-r'', ''abc'']"
            and pre = "[(CHR ''D'', ''50'')]" and post = "[]" and input = "''''" and level = 0
            and st = "([], default_parms\<lparr>delay := 50, end_delay := END_DELAY_YES\<rparr>)"
            and ?s1.0 = ?s1]
          h1 h2 h3 r3
    by simp
  show ?thesis
    using a b r1 r2
    by (simp add: usage_exit_def advance_def emit_def initial_world_def example_env_def
          EXIT_FAILURE_def)
qed

theorem numeric_prefix_accepted_counterexample:
  "libc_sscanf_u ''12abc'' = Some 12
   \<and> fst (main ((example_env never_interrupted [(CHR ''l'', ''12abc'')] (Some ''evdev''))
                  \<lparr>sscanf_u := libc_sscanf_u\<rparr>)
            [''beep'', ''-l'', ''12abc''] (initial_world '''' 0)) = Inr EXIT_SUCCESS
   \<and> filter is_lifecycle
       (trace (snd (main ((example_env never_interrupted [(CHR ''l'', ''12abc'')] (Some ''evdev''))
                            \<lparr>sscanf_u := libc_sscanf_u\<rparr>)
                      [''beep'', ''-l'', ''12abc''] (initial_world '''' 0)))) =
       [Detect None, Fini ''evdev'']
   \<and> filter is_phase
       (trace (snd (main ((example_env never_interrupted [(CHR ''l'', ''12abc'')] (Some ''evdev''))
                            \<lparr>sscanf_u := libc_sscanf_u\<rparr>)
                      [''beep'', ''-l'', ''12abc''] (initial_world '''' 0)))) =
       [Begin_tone ''evdev'' 440, Nanosleep 0 12000000, End_tone ''evdev'', End_tone ''evdev'']
   \<and> libc_sscanf_u ''4294967297'' = Some 1
   \<and> filter is_phase
       (trace (snd (main ((example_env never_interrupted [(CHR ''l'', ''4294967297'')]
                             (Some ''evdev''))
                            \<lparr>sscanf_u := libc_sscanf_u\<rparr>)
                      [''beep'', ''-l'', ''4294967297''] (initial_world '''' 0)))) =
       [Begin_tone ''evdev'' 440, Nanosleep 0 1000000, End_tone ''evdev'', End_tone ''evdev'']"
  by (simp add: example_defs libc_sscanf_u_def is_space_def is_digit_def decimal_value_def)

end
